(* ===== verification/Dax_Prelude.thy ===== *)
theory Dax_Prelude
  imports Complex_Main "HOL-Library.Word" "HOL-Library.Log_Nat"
begin

text \<open>
  Shared vocabulary of the dax-rust development: the proof collections the
  component theories fill, Rust's \<open>core::cmp::Ordering\<close>, the iterator
  reductions \<open>min_by\<close>/\<open>max_by\<close> of the standard library that the table's
  \<open>min\<close>/\<open>max\<close> call, and generic lemmas on lists, powers of two and
  natural-number bit lengths that the binary64 model and the tokenizer share.
\<close>

named_theorems dax_eval
  "equations that evaluate the model on closed inputs (used by the witnesses)"

named_theorems f64_class
  "classification facts of binary64 bit patterns (NaN, infinity, zero)"

section \<open>Rust's Ordering and the iterator reductions of the standard library\<close>

text \<open>\<open>core::cmp::Ordering\<close>.\<close>

datatype ordering = Less | Equal | Greater

text \<open>Rust's \<open>i32\<close>: a 32-bit word, read as two's complement by \<open>sint\<close>.\<close>

type_synonym i32 = "32 word"

text \<open>
  \<open>Iterator::min_by\<close> and \<open>Iterator::max_by\<close> reduce with
  \<open>cmp::min_by\<close>/\<open>cmp::max_by\<close>: on \<open>Less\<close> or \<open>Equal\<close> the minimum keeps its
  accumulator (the first of equal elements wins) while the maximum takes the new
  element (the last of equal elements wins). An empty iterator gives \<open>None\<close>.
\<close>

definition cmp_min_by :: "('a \<Rightarrow> 'a \<Rightarrow> ordering) \<Rightarrow> 'a \<Rightarrow> 'a \<Rightarrow> 'a" where
  "cmp_min_by cmp v1 v2 = (case cmp v1 v2 of Greater \<Rightarrow> v2 | _ \<Rightarrow> v1)"

definition cmp_max_by :: "('a \<Rightarrow> 'a \<Rightarrow> ordering) \<Rightarrow> 'a \<Rightarrow> 'a \<Rightarrow> 'a" where
  "cmp_max_by cmp v1 v2 = (case cmp v1 v2 of Greater \<Rightarrow> v1 | _ \<Rightarrow> v2)"

fun iter_reduce :: "('a \<Rightarrow> 'a \<Rightarrow> 'a) \<Rightarrow> 'a list \<Rightarrow> 'a option" where
  "iter_reduce f [] = None"
| "iter_reduce f (x # xs) = Some (foldl f x xs)"

definition iter_min_by :: "('a \<Rightarrow> 'a \<Rightarrow> ordering) \<Rightarrow> 'a list \<Rightarrow> 'a option" where
  "iter_min_by cmp xs = iter_reduce (cmp_min_by cmp) xs"

definition iter_max_by :: "('a \<Rightarrow> 'a \<Rightarrow> ordering) \<Rightarrow> 'a list \<Rightarrow> 'a option" where
  "iter_max_by cmp xs = iter_reduce (cmp_max_by cmp) xs"

section \<open>Generic lemmas\<close>

lemma foldl_cmp_in_set:
  assumes "\<And>a b. f a b = a \<or> f a b = b"
  shows "foldl f x xs \<in> insert x (set xs)"
  using assms
proof (induction xs arbitrary: x)
  case (Cons y ys)
  then show ?case by (metis foldl_Cons insert_iff list.simps(15) insert_commute)
qed simp

lemma iter_reduce_in_set:
  assumes "\<And>a b. f a b = a \<or> f a b = b" and "iter_reduce f xs = Some r"
  shows "r \<in> set xs"
proof (cases xs)
  case (Cons y ys)
  with assms(2) have "r = foldl f y ys" by simp
  then show ?thesis using foldl_cmp_in_set [of f y ys, OF assms(1)] Cons by simp
qed (use assms(2) in simp)

lemma iter_reduce_None_iff [simp]: "iter_reduce f xs = None \<longleftrightarrow> xs = []"
  by (cases xs) simp_all

lemma cmp_min_by_cases: "cmp_min_by c a b = a \<or> cmp_min_by c a b = b"
  by (simp add: cmp_min_by_def split: ordering.split)

lemma cmp_max_by_cases: "cmp_max_by c a b = a \<or> cmp_max_by c a b = b"
  by (simp add: cmp_max_by_def split: ordering.split)

text \<open>
  A \<open>min_by\<close>/\<open>max_by\<close> fold is extremal for a key when the comparison agrees with
  the key's order on every element the fold sees.
\<close>

lemma foldl_min_by_least:
  assumes "\<And>a b. a \<in> S \<Longrightarrow> b \<in> S \<Longrightarrow>
             cmp a b = (if k a < k b then Less else if k a = k b then Equal else Greater)"
    and "insert acc (set xs) \<subseteq> S"
  shows "\<forall>x \<in> insert acc (set xs). (k (foldl (cmp_min_by cmp) acc xs) :: 'b :: linorder) \<le> k x"
  using assms(2)
proof (induction xs arbitrary: acc)
  case (Cons y ys)
  let ?a = "cmp_min_by cmp acc y"
  have a: "?a = acc \<or> ?a = y" by (rule cmp_min_by_cases)
  have "cmp acc y = (if k acc < k y then Less else if k acc = k y then Equal else Greater)"
    using Cons.prems by (intro assms(1)) auto
  then have ka: "k ?a \<le> k acc \<and> k ?a \<le> k y"
    by (auto simp: cmp_min_by_def split: if_splits)
  have "insert ?a (set ys) \<subseteq> S" using a Cons.prems by auto
  then have "\<forall>x \<in> insert ?a (set ys). k (foldl (cmp_min_by cmp) ?a ys) \<le> k x"
    by (rule Cons.IH)
  with ka show ?case by (auto intro: order_trans)
qed simp

lemma foldl_max_by_greatest:
  assumes "\<And>a b. a \<in> S \<Longrightarrow> b \<in> S \<Longrightarrow>
             cmp a b = (if k a < k b then Less else if k a = k b then Equal else Greater)"
    and "insert acc (set xs) \<subseteq> S"
  shows "\<forall>x \<in> insert acc (set xs). k x \<le> (k (foldl (cmp_max_by cmp) acc xs) :: 'b :: linorder)"
  using assms(2)
proof (induction xs arbitrary: acc)
  case (Cons y ys)
  let ?a = "cmp_max_by cmp acc y"
  have a: "?a = acc \<or> ?a = y" by (rule cmp_max_by_cases)
  have "cmp acc y = (if k acc < k y then Less else if k acc = k y then Equal else Greater)"
    using Cons.prems by (intro assms(1)) auto
  then have ka: "k acc \<le> k ?a \<and> k y \<le> k ?a"
    by (auto simp: cmp_max_by_def split: if_splits)
  have "insert ?a (set ys) \<subseteq> S" using a Cons.prems by auto
  then have "\<forall>x \<in> insert ?a (set ys). k x \<le> k (foldl (cmp_max_by cmp) ?a ys)"
    by (rule Cons.IH)
  with ka show ?case by (auto intro: order_trans)
qed simp

lemma foldl_max_bounds:
  "(a :: 'b :: linorder) \<le> foldl (\<lambda>w v. max w (f v)) a vs \<and> (\<forall>u \<in> set vs. f u \<le> foldl (\<lambda>w v. max w (f v)) a vs)"
proof (induction vs arbitrary: a)
  case (Cons v vs)
  let ?b = "max a (f v)"
  have "?b \<le> foldl (\<lambda>w v. max w (f v)) ?b vs" "\<forall>u \<in> set vs. f u \<le> foldl (\<lambda>w v. max w (f v)) ?b vs"
    using Cons.IH [of ?b] by simp_all
  moreover have "a \<le> ?b" by simp
  moreover have "f v \<le> ?b" by simp
  ultimately show ?case by (auto intro: order_trans)
qed simp

lemma length_dropWhile_le [simp]: "length (dropWhile P xs) \<le> length xs"
  by (induction xs) auto

lemma length_dropWhile_diff_le [simp]: "length (dropWhile P xs) - n \<le> length xs"
  using length_dropWhile_le [of P xs] by linarith

lemma takeWhile_append_stop:
  "\<not> P y \<Longrightarrow> \<forall>x \<in> set xs. P x \<Longrightarrow> takeWhile P (xs @ y # ys) = xs"
  by (induction xs) auto

lemma dropWhile_append_stop:
  "\<not> P y \<Longrightarrow> \<forall>x \<in> set xs. P x \<Longrightarrow> dropWhile P (xs @ y # ys) = y # ys"
  by (induction xs) auto

section \<open>Rust's \<open>i32\<close>\<close>

text \<open>
  An \<open>i32\<close> is a 32-bit word read as two's complement by \<open>sint\<close>; \<open>+\<close> wraps
  around. A count kept in an \<open>i32\<close> is \<open>word_of_nat\<close> of the true count, and
  its signed reading is the true count modulo \<open>2^32\<close>, shifted down by \<open>2^32\<close>
  once it reaches \<open>2^31\<close>.
\<close>

lemma mod_shift_i32:
  fixes r :: int
  assumes "0 \<le> r" "r < 4294967296"
  shows "(r + 2147483648) mod 4294967296 - 2147483648 = (if r < 2147483648 then r else r - 4294967296)"
proof (cases "r < 2147483648")
  case False
  have "(r + 2147483648) mod 4294967296 = (r - 2147483648 + 4294967296) mod 4294967296"
    by (simp add: algebra_simps)
  also have "\<dots> = (r - 2147483648) mod 4294967296" by (rule mod_add_self2)
  also have "\<dots> = r - 2147483648" using False assms by (intro mod_pos_pos_trivial) simp_all
  finally show ?thesis using False by simp
qed (use assms in simp)

lemma sint_i32_of_nat:
  "sint (word_of_nat n :: i32) = (if n mod 2^32 < 2^31 then int (n mod 2^32) else int (n mod 2^32) - 2^32)"
proof -
  have r: "int n mod 4294967296 = int (n mod 4294967296)" by (simp add: zmod_int)
  have "sint (word_of_nat n :: i32) = (int n + 2147483648) mod 4294967296 - 2147483648"
    using int_word_sint [where x = "int n", where 'a = 32] by simp
  also have "\<dots> = (int n mod 4294967296 + 2147483648) mod 4294967296 - 2147483648"
    by (simp add: mod_add_left_eq)
  also have "\<dots> = (if int n mod 4294967296 < 2147483648 then int n mod 4294967296
                     else int n mod 4294967296 - 4294967296)"
    by (rule mod_shift_i32) simp_all
  finally show ?thesis unfolding r by simp
qed

text \<open>\<open>if count > 0 { .. count as f64 .. }\<close> on an \<open>i32\<close> count of \<open>n\<close> events.\<close>

lemma i32_count_positive:
  "(if 0 <s (word_of_nat n :: i32) then f (nat (sint (word_of_nat n :: i32))) else z)
   = (if 0 < n mod 2^32 \<and> n mod 2^32 < 2^31 then f (n mod 2^32) else z)"
  by (simp add: word_sless_alt sint_i32_of_nat)

text \<open>Powers of two with an integer exponent, evaluated on numerals.\<close>

lemma powi_two_eval [dax_eval]:
  "(2::rat) powi e = (if 0 \<le> e then 2 ^ nat e else 1 / 2 ^ nat (- e))"
  by (simp add: power_int_def power_one_over)

lemma powi_two_pos [simp]: "0 < (2::rat) powi e"
  by simp

lemma powi_two_add: "(2::rat) powi (x + y) = 2 powi x * 2 powi y"
  by (simp add: power_int_add)

lemma powi_two_nat: "0 \<le> k \<Longrightarrow> (2::rat) powi k = 2 ^ nat k"
  by (metis nat_0_le power_int_of_nat)

lemma powi_two_not_neg [simp]: "\<not> (2::rat) powi e < 0"
  using powi_two_pos [of e] by linarith

text \<open>\<open>floorlog 2\<close> is the number of binary digits of a natural number.\<close>

lemma floorlog2_bounds:
  "0 < n \<Longrightarrow> 2 ^ (floorlog 2 n - 1) \<le> n \<and> n < 2 ^ floorlog 2 n"
  using floorlog_bounds [of n 2] by simp

lemma floorlog2_pos: "0 < n \<Longrightarrow> 0 < floorlog 2 n"
  by (simp add: floorlog_def)

declare compute_floorlog [dax_eval]

end
