(* ===== verification/Dax_F64.thy ===== *)
theory Dax_F64
  imports Dax_Prelude
begin

text \<open>
  Rust's \<open>f64\<close> (IEEE-754 binary64, round to nearest, ties to even), modelled
  as the 64-bit pattern that \<open>f64::to_bits\<close> returns: a sign bit, an 11-bit
  biased exponent and a 52-bit fraction. Finite patterns decode to the rational
  number \<open>f64_val\<close>; \<open>f64_round\<close> is the executable rounding of a positive
  rational \<open>n / d * 2^e\<close> to the nearest pattern; addition, division and the
  conversions the program uses round the exact result with it. The operations
  are those the dax-rust code reaches: \<open>+\<close> (sum, average), \<open>/\<close> (average,
  divide), \<open>==\<close> and \<open>partial_cmp\<close> (Value equality, min, max), \<open>is_nan\<close>,
  \<open>is_infinite\<close>, \<open>is_sign_positive\<close>, \<open>to_bits\<close> (Value hashing) and the
  conversions \<open>usize as f64\<close> and \<open>str::parse\<close> of a decimal literal.
\<close>

type_synonym f64 = "64 word"

section \<open>Fields and special values\<close>

definition f64_exp :: "f64 \<Rightarrow> nat" where
  "f64_exp x = unat x div 2 ^ 52 mod 2 ^ 11"

definition f64_frac :: "f64 \<Rightarrow> nat" where
  "f64_frac x = unat x mod 2 ^ 52"

definition f64_sign :: "f64 \<Rightarrow> bool" where
  "f64_sign x \<longleftrightarrow> 2 ^ 63 \<le> unat x"

definition f64_of_fields :: "bool \<Rightarrow> nat \<Rightarrow> nat \<Rightarrow> f64" where
  "f64_of_fields s e m = word_of_nat ((if s then 2 ^ 63 else 0) + e * 2 ^ 52 + m)"

definition f64_to_bits :: "f64 \<Rightarrow> 64 word" where
  "f64_to_bits x = x"

definition f64_is_nan :: "f64 \<Rightarrow> bool" where
  "f64_is_nan x \<longleftrightarrow> f64_exp x = 2047 \<and> f64_frac x \<noteq> 0"

definition f64_is_infinite :: "f64 \<Rightarrow> bool" where
  "f64_is_infinite x \<longleftrightarrow> f64_exp x = 2047 \<and> f64_frac x = 0"

definition f64_is_zero :: "f64 \<Rightarrow> bool" where
  "f64_is_zero x \<longleftrightarrow> f64_exp x = 0 \<and> f64_frac x = 0"

definition f64_is_sign_positive :: "f64 \<Rightarrow> bool" where
  "f64_is_sign_positive x \<longleftrightarrow> \<not> f64_sign x"

text \<open>
  \<open>0.0\<close>, \<open>-0.0\<close>, the infinities and the quiet NaN that an invalid operation
  returns. Rust does not fix the payload of a computed NaN; the program never
  observes it (Value hashing and equality treat all NaNs alike), so the model
  returns the canonical quiet NaN.
\<close>

abbreviation f64_zero :: f64 where "f64_zero \<equiv> 0"

definition f64_neg_zero :: f64 where "f64_neg_zero = f64_of_fields True 0 0"

definition f64_inf :: "bool \<Rightarrow> f64" where "f64_inf s = f64_of_fields s 2047 0"

definition f64_nan :: f64 where "f64_nan = f64_of_fields False 2047 (2 ^ 51)"

section \<open>Decoding finite values\<close>

text \<open>
  A finite pattern is \<open>(-1)^sign * mant * 2^qexp\<close>: normal patterns carry the
  hidden bit \<open>2^52\<close> and exponent \<open>exp - 1075\<close>, subnormal ones (exponent
  field 0) have exponent \<open>-1074\<close>.
\<close>

definition f64_mant :: "f64 \<Rightarrow> nat" where
  "f64_mant x = (if f64_exp x = 0 then f64_frac x else 2 ^ 52 + f64_frac x)"

definition f64_qexp :: "f64 \<Rightarrow> int" where
  "f64_qexp x = (if f64_exp x = 0 then -1074 else int (f64_exp x) - 1075)"

definition f64_smant :: "f64 \<Rightarrow> int" where
  "f64_smant x = (if f64_sign x then - int (f64_mant x) else int (f64_mant x))"

definition f64_val :: "f64 \<Rightarrow> rat" where
  "f64_val x = of_int (f64_smant x) * 2 powi f64_qexp x"

text \<open>The extended value of a non-NaN pattern, ordered as the real line.\<close>

datatype xval = NegInf | Fin rat | PosInf

instantiation xval :: linorder
begin

fun less_eq_xval :: "xval \<Rightarrow> xval \<Rightarrow> bool" where
  "less_eq_xval NegInf y = True"
| "less_eq_xval (Fin a) NegInf = False"
| "less_eq_xval (Fin a) (Fin b) = (a \<le> b)"
| "less_eq_xval (Fin a) PosInf = True"
| "less_eq_xval PosInf y = (y = PosInf)"

definition less_xval :: "xval \<Rightarrow> xval \<Rightarrow> bool" where
  "less_xval x y \<longleftrightarrow> x \<le> y \<and> \<not> y \<le> x"

instance
proof
  fix x y z :: xval
  show "x < y \<longleftrightarrow> x \<le> y \<and> \<not> y \<le> x" by (simp add: less_xval_def)
  show "x \<le> x" by (cases x) simp_all
  show "x \<le> y \<Longrightarrow> y \<le> z \<Longrightarrow> x \<le> z" by (cases x; cases y; cases z) simp_all
  show "x \<le> y \<Longrightarrow> y \<le> x \<Longrightarrow> x = y" by (cases x; cases y) simp_all
  show "x \<le> y \<or> y \<le> x" by (cases x; cases y) auto
qed

end

definition f64_xval :: "f64 \<Rightarrow> xval" where
  "f64_xval x = (if f64_is_infinite x then (if f64_sign x then NegInf else PosInf)
                 else Fin (f64_val x))"

section \<open>Comparison\<close>

text \<open>
  \<open>PartialOrd::partial_cmp\<close> for \<open>f64\<close>: \<open>None\<close> when either side is NaN,
  otherwise the order of the values (so \<open>-0.0\<close> and \<open>0.0\<close> are \<open>Equal\<close>).
  \<open>PartialEq::eq\<close> is \<open>Some Equal\<close> of it.
\<close>

definition f64_partial_cmp :: "f64 \<Rightarrow> f64 \<Rightarrow> ordering option" where
  "f64_partial_cmp a b =
     (if f64_is_nan a \<or> f64_is_nan b then None
      else if f64_xval a < f64_xval b then Some Less
      else if f64_xval a = f64_xval b then Some Equal
      else Some Greater)"

definition f64_eq :: "f64 \<Rightarrow> f64 \<Rightarrow> bool" where
  "f64_eq a b \<longleftrightarrow> f64_partial_cmp a b = Some Equal"

section \<open>Rounding to nearest, ties to even\<close>

text \<open>\<open>pow2_le d n k\<close> decides \<open>d * 2^k \<le> n\<close> for an integer \<open>k\<close>.\<close>

definition pow2_le :: "nat \<Rightarrow> nat \<Rightarrow> int \<Rightarrow> bool" where
  "pow2_le d n k \<longleftrightarrow> (if 0 \<le> k then d * 2 ^ nat k \<le> n else d \<le> n * 2 ^ nat (- k))"

text \<open>\<open>log2_ratio n d\<close> is \<open>\<lfloor>log\<^sub>2 (n / d)\<rfloor>\<close> for positive \<open>n\<close>, \<open>d\<close>.\<close>

definition log2_ratio :: "nat \<Rightarrow> nat \<Rightarrow> int" where
  "log2_ratio n d =
     (let k = int (floorlog 2 n) - int (floorlog 2 d) in if pow2_le d n k then k else k - 1)"

text \<open>\<open>rne_div a b\<close> is \<open>a / b\<close> rounded to the nearest integer, ties to even.\<close>

definition rne_div :: "nat \<Rightarrow> nat \<Rightarrow> nat" where
  "rne_div a b =
     (let r = a div b; m = a mod b in if b < 2 * m \<or> (2 * m = b \<and> odd r) then r + 1 else r)"

text \<open>
  \<open>f64_round s n d e\<close> rounds \<open>(-1)^s * n / d * 2^e\<close> (\<open>n, d > 0\<close>): the
  quantum \<open>2^q\<close> is chosen so that the scaled value has 53 significant bits
  (never below the subnormal quantum \<open>2^-1074\<close>), the scaled value is rounded to
  an integer \<open>r\<close>, a carry to \<open>2^53\<close> is renormalised, and a result beyond the
  largest exponent is the infinity of that sign. A result below \<open>2^52\<close> is
  subnormal (or a signed zero on underflow).
\<close>

definition f64_round :: "bool \<Rightarrow> nat \<Rightarrow> nat \<Rightarrow> int \<Rightarrow> f64" where
  "f64_round s n d e =
     (let q = max (log2_ratio n d + e - 52) (-1074);
          r = (if q \<le> e then rne_div (n * 2 ^ nat (e - q)) d
               else rne_div n (d * 2 ^ nat (q - e)));
          r' = (if r = 2 ^ 53 then 2 ^ 52 else r);
          q' = (if r = 2 ^ 53 then q + 1 else q)
      in if r' < 2 ^ 52 then f64_of_fields s 0 r'
         else if 2047 \<le> q' + 1075 then f64_inf s
         else f64_of_fields s (nat (q' + 1075)) (r' - 2 ^ 52))"

section \<open>Arithmetic and conversions\<close>

text \<open>
  \<open>a + b\<close>: NaN on a NaN operand or on infinities of opposite signs; an infinite
  operand otherwise wins; finite operands are added exactly (aligned to the
  smaller quantum of the non-zero operands, a zero contributing nothing) and
  rounded. An exact zero sum is \<open>-0.0\<close> only when both
  operands are \<open>-0.0\<close>.
\<close>

definition f64_add :: "f64 \<Rightarrow> f64 \<Rightarrow> f64" where
  "f64_add a b =
     (if f64_is_nan a \<or> f64_is_nan b
         \<or> (f64_is_infinite a \<and> f64_is_infinite b \<and> f64_sign a \<noteq> f64_sign b) then f64_nan
      else if f64_is_infinite a then a
      else if f64_is_infinite b then b
      else let e = (if f64_is_zero a then f64_qexp b else if f64_is_zero b then f64_qexp a
                    else min (f64_qexp a) (f64_qexp b));
               m = f64_smant a * 2 ^ nat (f64_qexp a - e) + f64_smant b * 2 ^ nat (f64_qexp b - e)
           in if m = 0 then (if f64_sign a \<and> f64_sign b then f64_neg_zero else f64_zero)
              else f64_round (m < 0) (nat \<bar>m\<bar>) 1 e)"

text \<open>
  \<open>a / b\<close>: NaN on a NaN operand, \<open>0/0\<close> and \<open>\<infinity>/\<infinity>\<close>; an infinite dividend or
  a zero divisor gives an infinity, an infinite divisor or a zero dividend a zero,
  each with the exclusive-or of the signs; otherwise the rounded quotient.
\<close>

definition f64_div :: "f64 \<Rightarrow> f64 \<Rightarrow> f64" where
  "f64_div a b =
     (let s = (f64_sign a \<noteq> f64_sign b) in
      if f64_is_nan a \<or> f64_is_nan b \<or> (f64_is_zero a \<and> f64_is_zero b)
         \<or> (f64_is_infinite a \<and> f64_is_infinite b) then f64_nan
      else if f64_is_infinite a \<or> f64_is_zero b then f64_inf s
      else if f64_is_infinite b \<or> f64_is_zero a then f64_of_fields s 0 0
      else f64_round s (f64_mant a) (f64_mant b) (f64_qexp a - f64_qexp b))"

text \<open>\<open>n as f64\<close> for an unsigned integer \<open>n\<close>.\<close>

definition f64_of_nat :: "nat \<Rightarrow> f64" where
  "f64_of_nat n = (if n = 0 then f64_zero else f64_round False n 1 0)"

text \<open>The decimal \<open>n / 10^k\<close>, as \<open>str::parse::<f64>\<close> reads a literal.\<close>

definition f64_of_decimal :: "nat \<Rightarrow> nat \<Rightarrow> f64" where
  "f64_of_decimal n k = (if n = 0 then f64_zero else f64_round False n (10 ^ k) 0)"

lemmas f64_fields_eval [dax_eval] =
  f64_exp_def f64_frac_def f64_sign_def f64_of_fields_def f64_mant_def f64_qexp_def
  f64_smant_def f64_is_nan_def f64_is_infinite_def f64_is_zero_def f64_neg_zero_def
  f64_inf_def f64_nan_def

lemmas f64_arith_eval [dax_eval] =
  pow2_le_def log2_ratio_def rne_div_def f64_round_def f64_add_def f64_div_def
  f64_of_nat_def f64_of_decimal_def f64_val_def f64_xval_def f64_partial_cmp_def f64_eq_def

section \<open>Field algebra and injectivity of the decoding\<close>


lemma unat_f64_fields:
  "unat x = (if f64_sign x then 2 ^ 63 else 0) + f64_exp x * 2 ^ 52 + f64_frac x"
proof -
  define u where "u = unat x"
  have lt: "u < 2 ^ 64" unfolding u_def using unsigned_less [of x] by simp
  have hi: "u div 2 ^ 52 div 2 ^ 11 = (if 2 ^ 63 \<le> u then 1 else 0)"
  proof -
    have "u div 2 ^ 52 div 2 ^ 11 = u div 2 ^ 63"
      by (simp add: div_mult2_eq [symmetric] power_add [symmetric])
    also have "\<dots> = (if 2 ^ 63 \<le> u then 1 else 0)"
      using lt by (auto simp: div_eq_0_iff intro: div_nat_eqI)
    finally show ?thesis .
  qed
  have "u = (u div 2 ^ 52 div 2 ^ 11 * 2 ^ 11 + u div 2 ^ 52 mod 2 ^ 11) * 2 ^ 52 + u mod 2 ^ 52"
    by simp
  then show ?thesis
    unfolding f64_sign_def f64_exp_def f64_frac_def u_def [symmetric] hi
    by (simp add: algebra_simps split: if_splits)
qed

lemma f64_fields_inject:
  assumes "f64_sign x = f64_sign y" "f64_exp x = f64_exp y" "f64_frac x = f64_frac y"
  shows "x = y"
proof -
  have "unat x = unat y" using assms by (simp only: unat_f64_fields [of x] unat_f64_fields [of y])
  then show ?thesis by (simp add: word_unat_eq_iff)
qed

lemma unat_f64_of_fields:
  assumes "e < 2048" "m < 2 ^ 52"
  shows "unat (f64_of_fields s e m) = (if s then 2 ^ 63 else 0) + e * 2 ^ 52 + m"
proof -
  have "e * 2 ^ 52 + m < (2::nat) ^ 63"
  proof -
    have "e * 2 ^ 52 + m < e * 2 ^ 52 + 2 ^ 52" using assms(2) by simp
    also have "\<dots> = (e + 1) * 2 ^ 52" by simp
    also have "\<dots> \<le> 2048 * 2 ^ 52" using assms(1) by (intro mult_right_mono) simp_all
    finally show ?thesis by simp
  qed
  then show ?thesis unfolding f64_of_fields_def unat_of_nat by simp
qed

lemma f64_of_fields_fields:
  assumes "e < 2048" "m < 2 ^ 52"
  shows "f64_sign (f64_of_fields s e m) = s \<and> f64_exp (f64_of_fields s e m) = e
    \<and> f64_frac (f64_of_fields s e m) = m"
proof -
  define S :: nat where "S = (if s then 2 ^ 11 else 0)"
  have u: "unat (f64_of_fields s e m) = (S + e) * 2 ^ 52 + m"
    using unat_f64_of_fields [OF assms, of s] by (simp add: S_def algebra_simps)
  have d: "((S + e) * 2 ^ 52 + m) div 2 ^ 52 = S + e"
    using assms(2) by simp
  have md: "((S + e) * 2 ^ 52 + m) mod 2 ^ 52 = m"
    unfolding mod_mult_self3 using assms(2) by simp
  have "(S + e) mod 2048 = e" using assms(1) by (simp add: S_def)
  moreover have "(2 ^ 63 \<le> (S + e) * 2 ^ 52 + m) = s"
  proof -
    have "(S + e) * 2 ^ 52 + m < (S + e + 1) * 2 ^ 52" using assms(2) by simp
    then show ?thesis using assms(1) by (auto simp: S_def)
  qed
  ultimately show ?thesis using u d md by (simp add: f64_sign_def f64_exp_def f64_frac_def)
qed

lemma f64_frac_less: "f64_frac x < 2 ^ 52"
  by (simp add: f64_frac_def)

lemma f64_exp_less: "f64_exp x < 2048"
  by (simp add: f64_exp_def)

lemma f64_mant_less: "f64_mant x < 2 ^ 53"
  using f64_frac_less [of x] by (simp add: f64_mant_def)

lemma f64_mant_normal: "f64_exp x \<noteq> 0 \<Longrightarrow> 2 ^ 52 \<le> f64_mant x"
  by (simp add: f64_mant_def)

lemma f64_mant_subnormal: "f64_exp x = 0 \<Longrightarrow> f64_mant x < 2 ^ 52"
  by (simp add: f64_mant_def f64_frac_def)

lemma f64_mant_eq_0_iff: "f64_mant x = 0 \<longleftrightarrow> f64_is_zero x"
  by (simp add: f64_mant_def f64_is_zero_def)

lemma powi_scale_eq:
  assumes "of_nat m1 * (2::rat) powi q1 = of_nat m2 * 2 powi q2" and "q1 \<le> q2"
  shows "m1 = m2 * 2 ^ nat (q2 - q1)"
proof -
  have "(2::rat) powi q2 = 2 powi q1 * 2 ^ nat (q2 - q1)"
    using assms(2) by (simp add: power_int_add [symmetric] power_int_of_nat [symmetric])
  with assms(1) have "of_nat m1 * (2::rat) powi q1 = (of_nat m2 * 2 ^ nat (q2 - q1)) * 2 powi q1"
    by (simp add: ac_simps)
  then have "(of_nat m1 :: rat) = of_nat (m2 * 2 ^ nat (q2 - q1))"
    by simp
  then show ?thesis by (simp only: of_nat_eq_iff)
qed

lemma f64_magnitude_qexp:
  assumes "of_nat (f64_mant a) * (2::rat) powi f64_qexp a = of_nat (f64_mant b) * 2 powi f64_qexp b"
    and "f64_qexp a \<le> f64_qexp b"
  shows "f64_qexp a = f64_qexp b"
proof (rule ccontr)
  assume ne: "f64_qexp a \<noteq> f64_qexp b"
  with assms(2) have lt: "f64_qexp a < f64_qexp b" by simp
  then have "f64_exp b \<noteq> 0" unfolding f64_qexp_def by (auto split: if_splits)
  then have "2 ^ 52 \<le> f64_mant b" by (rule f64_mant_normal)
  moreover have "(2::nat) \<le> 2 ^ nat (f64_qexp b - f64_qexp a)"
    using lt by (simp add: self_le_power)
  ultimately have "2 ^ 52 * 2 \<le> f64_mant b * 2 ^ nat (f64_qexp b - f64_qexp a)"
    by (intro mult_le_mono) simp_all
  also have "\<dots> = f64_mant a" using powi_scale_eq [OF assms] by simp
  finally show False using f64_mant_less [of a] by simp
qed

lemma f64_magnitude_inject:
  assumes "of_nat (f64_mant a) * (2::rat) powi f64_qexp a = of_nat (f64_mant b) * 2 powi f64_qexp b"
  shows "f64_exp a = f64_exp b \<and> f64_frac a = f64_frac b"
proof -
  have q: "f64_qexp a = f64_qexp b"
    using f64_magnitude_qexp [OF assms] f64_magnitude_qexp [OF assms [symmetric]] by linarith
  with assms have m: "f64_mant a = f64_mant b" by simp
  have z: "f64_exp a = 0 \<longleftrightarrow> f64_exp b = 0"
    using m f64_mant_normal [of a] f64_mant_normal [of b] f64_mant_subnormal [of a]
      f64_mant_subnormal [of b] by fastforce
  show ?thesis
    using q m z by (auto simp: f64_qexp_def f64_mant_def split: if_splits)
qed

lemma f64_val_eq_0_iff: "f64_val x = 0 \<longleftrightarrow> f64_is_zero x"
  by (simp add: f64_val_def f64_smant_def f64_mant_eq_0_iff)

lemma f64_val_inject:
  assumes "f64_val a = f64_val b"
  shows "a = b \<or> (f64_is_zero a \<and> f64_is_zero b)"
proof (cases "f64_is_zero a")
  case True
  then show ?thesis using assms f64_val_eq_0_iff [of a] f64_val_eq_0_iff [of b] by simp
next
  case False
  then have b: "\<not> f64_is_zero b" using assms by (simp add: f64_val_eq_0_iff [symmetric])
  have pa: "0 < f64_mant a" and pb: "0 < f64_mant b"
    using False b by (simp_all add: f64_mant_eq_0_iff [symmetric])
  have sgn: "f64_val x < 0 \<longleftrightarrow> f64_sign x" if "0 < f64_mant x" for x
    using that by (auto simp: f64_val_def f64_smant_def mult_less_0_iff)
  have s: "f64_sign a = f64_sign b" using sgn [OF pa] sgn [OF pb] assms by simp
  have "\<bar>f64_val x\<bar> = of_nat (f64_mant x) * 2 powi f64_qexp x" for x
    by (simp add: f64_val_def f64_smant_def abs_mult)
  then have "of_nat (f64_mant a) * (2::rat) powi f64_qexp a = of_nat (f64_mant b) * 2 powi f64_qexp b"
    using assms by metis
  then show ?thesis using f64_magnitude_inject s f64_fields_inject by blast
qed


lemma f64_zero_not_infinite: "f64_is_zero x \<Longrightarrow> \<not> f64_is_infinite x"
  by (simp add: f64_is_zero_def f64_is_infinite_def)

lemma f64_xval_eq_iff:
  "f64_xval a = f64_xval b \<longleftrightarrow> a = b \<or> (f64_is_zero a \<and> f64_is_zero b)"
proof
  assume eq: "f64_xval a = f64_xval b"
  show "a = b \<or> (f64_is_zero a \<and> f64_is_zero b)"
  proof (cases "f64_is_infinite a")
    case True
    with eq have "f64_is_infinite b \<and> f64_sign a = f64_sign b"
      by (auto simp: f64_xval_def split: if_splits)
    with True have "a = b"
      by (intro f64_fields_inject) (simp_all add: f64_is_infinite_def)
    then show ?thesis ..
  next
    case False
    with eq have "\<not> f64_is_infinite b \<and> f64_val a = f64_val b"
      by (auto simp: f64_xval_def split: if_splits)
    then show ?thesis by (blast dest: f64_val_inject)
  qed
next
  assume "a = b \<or> (f64_is_zero a \<and> f64_is_zero b)"
  moreover have "f64_val x = 0" if "f64_is_zero x" for x
    using that f64_val_eq_0_iff by blast
  ultimately show "f64_xval a = f64_xval b"
    by (auto simp: f64_xval_def dest: f64_zero_not_infinite)
qed

lemma f64_eq_iff_bits:
  "f64_eq a b \<longleftrightarrow> \<not> f64_is_nan a \<and> \<not> f64_is_nan b \<and> (a = b \<or> (f64_is_zero a \<and> f64_is_zero b))"
proof -
  have "f64_eq a b \<longleftrightarrow> \<not> f64_is_nan a \<and> \<not> f64_is_nan b \<and> f64_xval a = f64_xval b"
    by (auto simp: f64_eq_def f64_partial_cmp_def)
  then show ?thesis by (simp only: f64_xval_eq_iff)
qed

lemma f64_partial_cmp_Greater: "f64_partial_cmp a b = Some Greater \<Longrightarrow> f64_xval b < f64_xval a"
  unfolding f64_partial_cmp_def by (simp split: if_splits)

lemma f64_partial_cmp_Less: "f64_partial_cmp a b = Some Less \<Longrightarrow> f64_xval a < f64_xval b"
  unfolding f64_partial_cmp_def by (simp split: if_splits)

lemma f64_partial_cmp_not_Greater: "f64_xval a \<le> f64_xval b \<Longrightarrow> f64_partial_cmp a b \<noteq> Some Greater"
  using f64_partial_cmp_Greater [of a b] by auto

lemma f64_partial_cmp_not_Less: "f64_xval b \<le> f64_xval a \<Longrightarrow> f64_partial_cmp a b \<noteq> Some Less"
  using f64_partial_cmp_Less [of a b] by auto

section \<open>Rounding yields well-formed patterns\<close>



lemma pow2_le_iff: "pow2_le d n k \<longleftrightarrow> of_nat d * (2::rat) powi k \<le> of_nat n"
proof (cases "0 \<le> k")
  case True
  then have "of_nat d * (2::rat) powi k = of_nat (d * 2 ^ nat k)" by (simp add: powi_two_nat)
  with True show ?thesis unfolding pow2_le_def by (simp only: of_nat_le_iff) simp
next
  case False
  then have "(2::rat) powi k = 1 / 2 ^ nat (- k)" by (simp add: powi_two_eval)
  then have "of_nat d * (2::rat) powi k \<le> of_nat n \<longleftrightarrow> of_nat d \<le> (of_nat (n * 2 ^ nat (- k)) :: rat)"
    by (simp add: divide_le_eq)
  with False show ?thesis unfolding pow2_le_def by (simp only: of_nat_le_iff) simp
qed

lemma powi_two_of_nat: "(2::rat) powi int m = of_nat (2 ^ m)"
  by (simp add: power_int_of_nat)
lemma floorlog2_rat_bounds:
  assumes "0 < n"
  shows "(2::rat) powi (int (floorlog 2 n) - 1) \<le> of_nat n \<and> of_nat n < (2::rat) powi int (floorlog 2 n)"
proof -
  obtain m where m: "m = floorlog 2 n" by simp
  have p: "0 < m" using floorlog2_pos [OF assms] m by simp
  have b: "2 ^ (m - 1) \<le> n \<and> n < 2 ^ m" using floorlog2_bounds [OF assms] m by simp
  have "int m - 1 = int (m - 1)" using p by simp
  then have "(2::rat) powi (int m - 1) = of_nat (2 ^ (m - 1))" by (simp only: powi_two_of_nat)
  moreover have "(2::rat) powi int m = of_nat (2 ^ m)" by (rule powi_two_of_nat)
  ultimately show ?thesis using b m by (simp only: of_nat_le_iff of_nat_less_iff)
qed
lemma log2_ratio_bounds:
  assumes "0 < n" "0 < d"
  shows "of_nat d * (2::rat) powi log2_ratio n d \<le> of_nat n
    \<and> of_nat n < of_nat d * (2::rat) powi (log2_ratio n d + 1)"
proof -
  define a where "a = int (floorlog 2 n)"
  define b where "b = int (floorlog 2 d)"
  have na: "(2::rat) powi (a - 1) \<le> of_nat n" "of_nat n < (2::rat) powi a"
    using floorlog2_rat_bounds [OF assms(1)] unfolding a_def by simp_all
  have db: "(2::rat) powi (b - 1) \<le> of_nat d" "of_nat d < (2::rat) powi b"
    using floorlog2_rat_bounds [OF assms(2)] unfolding b_def by simp_all
  show ?thesis
  proof (cases "pow2_le d n (a - b)")
    case True
    then have k: "log2_ratio n d = a - b" unfolding log2_ratio_def a_def b_def Let_def by simp
    have "of_nat n < (2::rat) powi (b - 1) * 2 powi (a - b + 1)"
      using na(2) by (simp add: powi_two_add [symmetric])
    also have "\<dots> \<le> of_nat d * 2 powi (a - b + 1)"
      using db(1) by (intro mult_right_mono) simp_all
    finally show ?thesis using True k by (simp add: pow2_le_iff)
  next
    case False
    then have k: "log2_ratio n d = a - b - 1" unfolding log2_ratio_def a_def b_def Let_def by simp
    have "of_nat d * (2::rat) powi (a - b - 1) \<le> 2 powi b * 2 powi (a - b - 1)"
      using db(2) by (intro mult_right_mono) simp_all
    also have "\<dots> = 2 powi (a - 1)" by (simp add: powi_two_add [symmetric])
    also have "\<dots> \<le> of_nat n" using na(1) .
    finally show ?thesis using False k by (simp add: pow2_le_iff not_le)
  qed
qed


lemma rne_div_le:
  assumes "a < c * b"
  shows "rne_div a b \<le> c"
proof -
  have "a div b < c" using assms by (rule less_mult_imp_div_less)
  then show ?thesis by (simp add: rne_div_def Let_def)
qed

lemma f64_round_significand_bound:
  assumes "0 < n" "0 < d"
    and q: "q = max (log2_ratio n d + e - 52) (-1074)"
  shows "(if q \<le> e then rne_div (n * 2 ^ nat (e - q)) d else rne_div n (d * 2 ^ nat (q - e)))
         \<le> 2 ^ 53"
proof -
  have "of_nat n < of_nat d * (2::rat) powi (log2_ratio n d + 1)"
    using log2_ratio_bounds [OF assms(1,2)] by blast
  also have "\<dots> \<le> of_nat d * 2 powi (53 + (q - e))"
    using q by (intro mult_left_mono power_int_increasing) simp_all
  finally have up: "of_nat n < of_nat d * (2::rat) powi (53 + (q - e))" .
  show ?thesis
  proof (cases "q \<le> e")
    case True
    have "of_nat n * (2::rat) powi (e - q) < of_nat d * 2 powi (53 + (q - e)) * 2 powi (e - q)"
      using up by (intro mult_strict_right_mono) simp_all
    also have "\<dots> = of_nat d * 2 powi 53" by (simp add: powi_two_add [symmetric] mult.assoc)
    finally have "of_nat (n * 2 ^ nat (e - q)) < (of_nat (2 ^ 53 * d) :: rat)"
      using True by (simp add: powi_two_nat mult.commute)
    then have "n * 2 ^ nat (e - q) < 2 ^ 53 * d" by (simp only: of_nat_less_iff)
    with True show ?thesis by (simp add: rne_div_le)
  next
    case False
    have "of_nat d * (2::rat) powi (53 + (q - e)) = of_nat (2 ^ 53 * (d * 2 ^ nat (q - e)))"
      using False by (simp add: powi_two_add powi_two_nat)
    with up have "n < 2 ^ 53 * (d * 2 ^ nat (q - e))" by (simp only: of_nat_less_iff)
    with False show ?thesis by (simp add: rne_div_le)
  qed
qed


lemma f64_round_fields:
  assumes "0 < n" "0 < d"
  obtains E F where "f64_round s n d e = f64_of_fields s E F" and "E < 2048" and "F < 2 ^ 52"
    and "E = 2047 \<Longrightarrow> F = 0"
proof -
  define q where "q = max (log2_ratio n d + e - 52) (-1074)"
  define r where "r = (if q \<le> e then rne_div (n * 2 ^ nat (e - q)) d
                       else rne_div n (d * 2 ^ nat (q - e)))"
  define r' :: nat where "r' = (if r = 2 ^ 53 then 2 ^ 52 else r)"
  define q' where "q' = (if r = 2 ^ 53 then q + 1 else q)"
  have eq: "f64_round s n d e =
    (if r' < 2 ^ 52 then f64_of_fields s 0 r'
     else if 2047 \<le> q' + 1075 then f64_inf s
     else f64_of_fields s (nat (q' + 1075)) (r' - 2 ^ 52))"
    unfolding f64_round_def Let_def q_def r_def r'_def q'_def by (rule refl)
  have "r \<le> 2 ^ 53" using f64_round_significand_bound [OF assms q_def] by (simp add: r_def)
  then have r': "r' < 2 ^ 53" by (auto simp: r'_def)
  show ?thesis
  proof (cases "r' < 2 ^ 52")
    case True
    then show ?thesis using that [of 0 r'] eq by simp
  next
    case False
    show ?thesis
    proof (cases "2047 \<le> q' + 1075")
      case True
      then show ?thesis using that [of 2047 0] eq False by (simp add: f64_inf_def)
    next
      case big: False
      have "r' - 2 ^ 52 < 2 ^ 52" using r' False by simp
      moreover have "nat (q' + 1075) < 2048" using big by simp
      ultimately show ?thesis using that [of "nat (q' + 1075)" "r' - 2 ^ 52"] eq False big by simp
    qed
  qed
qed

lemma f64_round_sign: "0 < n \<Longrightarrow> 0 < d \<Longrightarrow> f64_sign (f64_round s n d e) = s"
proof -
  assume "0 < n" "0 < d"
  then obtain E F where "f64_round s n d e = f64_of_fields s E F" "E < 2048" "F < 2 ^ 52"
    by (rule f64_round_fields)
  then show ?thesis using f64_of_fields_fields [of E F s] by simp
qed

lemma f64_round_not_nan: "0 < n \<Longrightarrow> 0 < d \<Longrightarrow> \<not> f64_is_nan (f64_round s n d e)"
  by (elim f64_round_fields [of n d s e]) (auto simp: f64_is_nan_def f64_of_fields_fields)

end
