(* ===== verification/Dax_Value.thy ===== *)
theory Dax_Value
  imports Dax_F64
begin

text \<open>
  The cell type \<open>Value\<close> of \<open>src/src/types.rs\<close>: its variants, the hand-written
  \<open>PartialEq\<close> (all NaNs equal, otherwise \<open>f64\<close> equality, so \<open>0.0 == -0.0\<close>)
  and the hand-written \<open>Hash\<close>, modelled as the exact byte stream the
  implementation feeds to the hasher (\<open>write_u8\<close>, \<open>write_u64\<close> in native
  little-endian order, \<open>str::hash\<close> as the UTF-8 bytes and the terminator
  \<open>0xff\<close>). Characters are Isabelle's 8-bit \<open>char\<close>, read as the Unicode code
  points U+0000 to U+00FF; their UTF-8 encoding is written out.
  Also the \<open>From\<close> conversions of \<open>src/src/table.rs\<close>.
\<close>

datatype Value = Number f64 | Text string | Boolean bool | Null

section \<open>Equality\<close>

fun value_eq :: "Value \<Rightarrow> Value \<Rightarrow> bool" where
  "value_eq (Number a) (Number b) = (if f64_is_nan a \<and> f64_is_nan b then True else f64_eq a b)"
| "value_eq (Text a) (Text b) = (a = b)"
| "value_eq (Boolean a) (Boolean b) = (a = b)"
| "value_eq Null Null = True"
| "value_eq _ _ = False"

section \<open>Hashing\<close>

type_synonym byte = "8 word"

definition u64_to_ne_bytes :: "64 word \<Rightarrow> byte list" where
  "u64_to_ne_bytes w =
     map (\<lambda>k. word_of_nat (unat w div 2 ^ k mod 256)) [0, 8, 16, 24, 32, 40, 48, 56]"

definition utf8_encode_char :: "char \<Rightarrow> byte list" where
  "utf8_encode_char c =
     (let n = of_char c :: nat in
      if n < 128 then [word_of_nat n] else [word_of_nat (192 + n div 64), word_of_nat (128 + n mod 64)])"

definition str_hash_bytes :: "string \<Rightarrow> byte list" where
  "str_hash_bytes s = concat (map utf8_encode_char s) @ [255]"

fun value_hash :: "Value \<Rightarrow> byte list" where
  "value_hash (Number n) =
     (if f64_is_nan n then [0]
      else if f64_is_infinite n then (if f64_is_sign_positive n then [1] else [2])
      else u64_to_ne_bytes (f64_to_bits n))"
| "value_hash (Text s) = str_hash_bytes s"
| "value_hash (Boolean b) = [if b then 1 else 0]"
| "value_hash Null = [3]"

section \<open>Conversions\<close>

definition value_from_f64 :: "f64 \<Rightarrow> Value" where
  "value_from_f64 n = Number n"

definition value_from_str :: "string \<Rightarrow> Value" where
  "value_from_str s = Text s"

definition value_from_bool :: "bool \<Rightarrow> Value" where
  "value_from_bool b = Boolean b"

section \<open>Canonical representatives\<close>

text \<open>
  \<open>value_canon\<close> picks one representative per equality class (one NaN, one
  zero); \<open>value_hash_canon\<close> is the coarser identification the hasher sees
  (one NaN, but the two zeros kept apart).
\<close>

fun value_canon :: "Value \<Rightarrow> Value" where
  "value_canon (Number n) =
     Number (if f64_is_nan n then f64_nan else if f64_is_zero n then f64_zero else n)"
| "value_canon v = v"

fun value_hash_canon :: "Value \<Rightarrow> Value" where
  "value_hash_canon (Number n) = Number (if f64_is_nan n then f64_nan else n)"
| "value_hash_canon v = v"

declare value_eq.simps [dax_eval] value_hash.simps [dax_eval] u64_to_ne_bytes_def [dax_eval]
  f64_to_bits_def [dax_eval] f64_is_sign_positive_def [dax_eval]

section \<open>Equality classes and hashing\<close>


lemma f64_is_zero_iff: "f64_is_zero x \<longleftrightarrow> x = f64_zero \<or> x = f64_neg_zero"
proof
  assume z: "f64_is_zero x"
  have "f64_of_fields (f64_sign x) 0 0 = x"
    using z f64_of_fields_fields [of 0 0 "f64_sign x"]
    by (intro f64_fields_inject) (simp_all add: f64_is_zero_def)
  then show "x = f64_zero \<or> x = f64_neg_zero"
    by (cases "f64_sign x") (simp_all add: f64_neg_zero_def f64_of_fields_def)
next
  assume "x = f64_zero \<or> x = f64_neg_zero"
  then show "f64_is_zero x"
    using f64_of_fields_fields [of 0 0 True]
    by (auto simp: f64_is_zero_def f64_neg_zero_def f64_exp_def f64_frac_def)
qed

lemma value_eq_refl: "value_eq v v"
  by (cases v) (simp_all add: f64_eq_iff_bits)

lemma value_eq_sym: "value_eq a b \<Longrightarrow> value_eq b a"
  by (cases a; cases b) (auto simp: f64_eq_iff_bits)

lemma value_eq_iff_canon: "value_eq a b \<longleftrightarrow> value_canon a = value_canon b"
proof (cases a; cases b)
  fix x y assume "a = Number x" "b = Number y"
  moreover have "f64_is_nan f64_nan" and "\<not> f64_is_zero f64_nan" and "\<not> f64_is_nan f64_zero"
    by (simp_all add: dax_eval)
  ultimately show ?thesis
    by (auto simp: f64_eq_iff_bits f64_is_zero_iff dest: f64_zero_not_infinite)
qed simp_all


lemma value_hash_number_cases:
  "value_hash (Number n) = value_hash (Number m) \<or> \<not> value_eq (Number n) (Number m)
   \<or> {n, m} = {f64_zero, f64_neg_zero}"
  by (auto simp: f64_eq_iff_bits f64_is_zero_iff)

subsection \<open>The hash set's notion of sameness\<close>

text \<open>
  A \<open>HashSet\<close> treats two values as the same element when their hash inputs
  agree and they are \<open>==\<close>; that is equality of \<open>value_hash_canon\<close>.
\<close>

lemma f64_signed_zero_hash_differ:
  "value_hash (Number f64_zero) \<noteq> value_hash (Number f64_neg_zero)"
  by (simp add: dax_eval)

lemma value_hash_number_key:
  assumes "\<not> f64_is_nan a" "\<not> f64_is_nan b"
  shows "(value_hash (Number a) = value_hash (Number b) \<and> value_eq (Number a) (Number b)) \<longleftrightarrow> a = b"
proof
  assume h: "value_hash (Number a) = value_hash (Number b) \<and> value_eq (Number a) (Number b)"
  then have "a = b \<or> (f64_is_zero a \<and> f64_is_zero b)"
    using assms by (simp add: f64_eq_iff_bits)
  moreover have "\<not> (a \<noteq> b \<and> f64_is_zero a \<and> f64_is_zero b)"
  proof
    assume "a \<noteq> b \<and> f64_is_zero a \<and> f64_is_zero b"
    then have "(a = f64_zero \<and> b = f64_neg_zero) \<or> (a = f64_neg_zero \<and> b = f64_zero)"
      by (auto simp: f64_is_zero_iff)
    then show False
      using h f64_signed_zero_hash_differ by (metis (no_types))
  qed
  ultimately show "a = b" by blast
next
  assume "a = b"
  then show "value_hash (Number a) = value_hash (Number b) \<and> value_eq (Number a) (Number b)"
    by (simp add: value_eq_refl)
qed

lemma value_hash_key_iff:
  "(value_hash y = value_hash x \<and> value_eq y x) \<longleftrightarrow> value_hash_canon y = value_hash_canon x"
proof (cases y; cases x)
  fix a b assume yx: "y = Number a" "x = Number b"
  have nan: "f64_is_nan f64_nan" by (simp add: dax_eval)
  show ?thesis
  proof (cases "f64_is_nan a \<or> f64_is_nan b")
    case True
    with nan yx show ?thesis by (auto simp: f64_eq_iff_bits)
  next
    case False
    then show ?thesis using value_hash_number_key [of a b] yx by simp
  qed
qed auto

lemma value_canon_hash_canon [simp]: "value_canon (value_hash_canon v) = value_canon v"
proof (cases v)
  case (Number n)
  have "f64_is_nan f64_nan" by (simp add: dax_eval)
  with Number show ?thesis by (cases "f64_is_nan n") simp_all
qed simp_all

lemma value_canon_inj_on_hash_classes:
  assumes "\<not> (Number f64_zero \<in> S \<and> Number f64_neg_zero \<in> S)"
  shows "inj_on value_canon (value_hash_canon ` S)"
proof (rule inj_onI)
  fix u w assume "u \<in> value_hash_canon ` S" "w \<in> value_hash_canon ` S"
    and eq: "value_canon u = value_canon w"
  then obtain v1 v2 where v: "v1 \<in> S" "v2 \<in> S" "u = value_hash_canon v1" "w = value_hash_canon v2"
    by auto
  have "value_eq v1 v2" using eq v by (simp add: value_eq_iff_canon)
  show "u = w"
  proof (cases "value_hash v1 = value_hash v2")
    case True
    with \<open>value_eq v1 v2\<close> v show ?thesis using value_hash_key_iff [of v1 v2] by simp
  next
    case False
    then obtain a b where ab: "v1 = Number a" "v2 = Number b"
      using \<open>value_eq v1 v2\<close> by (cases v1; cases v2) simp_all
    have "value_hash (Number a) \<noteq> value_hash (Number b)" "value_eq (Number a) (Number b)"
      using False \<open>value_eq v1 v2\<close> by (simp_all only: ab simp_thms)
    then have "{a, b} = {f64_zero, f64_neg_zero}"
      using value_hash_number_cases [of a b] by blast
    then have "Number f64_zero \<in> S \<and> Number f64_neg_zero \<in> S"
      using v(1,2) ab by (auto simp: doubleton_eq_iff)
    with assms show ?thesis by blast
  qed
qed

text \<open>
  C7. Value's \<open>Hash\<close> agrees with its \<open>PartialEq\<close> except on one pair: two
  values that are \<open>==\<close> but feed different bytes to the hasher are exactly
  \<open>Number(0.0)\<close> and \<open>Number(-0.0)\<close>.
\<close>

theorem value_hash_consistent:
  assumes "value_eq a b" and "value_hash a \<noteq> value_hash b"
  shows "{a, b} = {Number f64_zero, Number f64_neg_zero}"
  using assms
proof (cases a; cases b)
  fix x y assume ab: "a = Number x" "b = Number y"
  with assms value_hash_number_cases [of x y] have "{x, y} = {f64_zero, f64_neg_zero}" by auto
  with ab show ?thesis by auto
qed simp_all

text \<open>
  C8. Value's hand-written \<open>PartialEq\<close> is an equivalence relation (so the
  \<open>impl Eq\<close> is lawful): reflexive also on NaN, symmetric and transitive.
\<close>

theorem value_eq_equivp: "equivp value_eq"
  by (rule equivpI) (auto simp: reflp_def symp_def transp_def value_eq_iff_canon)

end
