(* ===== verification/Dax_Table.thy ===== *)
theory Dax_Table
  imports Dax_Value
begin

text \<open>
  \<open>struct Table\<close> of \<open>src/src/table.rs\<close>: a \<open>HashMap<String, Vec<Value>>\<close>
  from column names to columns, modelled as a map. \<open>add_column\<close> returns the
  updated table (the Rust method mutates \<open>self\<close>); the aggregates take the table
  and return \<open>Option\<close>, \<open>None\<close> when the column is missing (the \<open>?\<close> of
  \<open>get_column\<close>). The \<open>HashSet<&Value>\<close> that \<open>distinctcount\<close> collects into is
  modelled by its insertion rule: an element is already present when a stored
  element has the same hash input and is \<open>==\<close> to it (the model assumes no
  collision of the 64-bit hashes of different byte streams).
\<close>

record Table =
  columns :: "string \<rightharpoonup> Value list"

definition table_new :: Table where
  "table_new = \<lparr>columns = Map.empty\<rparr>"

definition get_column :: "Table \<Rightarrow> string \<Rightarrow> Value list option" where
  "get_column t name = columns t name"

definition add_column :: "Table \<Rightarrow> string \<Rightarrow> Value list \<Rightarrow> Table" where
  "add_column t name vals = t\<lparr>columns := (columns t)(name \<mapsto> vals)\<rparr>"

section \<open>Aggregates\<close>

text \<open>The \<open>if let Value::Number(n) = value\<close> filter.\<close>

fun number_of :: "Value \<Rightarrow> f64 option" where
  "number_of (Number n) = Some n"
| "number_of _ = None"

definition numbers :: "Value list \<Rightarrow> f64 list" where
  "numbers column = List.map_filter number_of column"

definition sum_step :: "f64 \<Rightarrow> Value \<Rightarrow> f64" where
  "sum_step acc v = (case v of Number n \<Rightarrow> f64_add acc n | _ \<Rightarrow> acc)"

definition table_sum :: "Table \<Rightarrow> string \<Rightarrow> f64 option" where
  "table_sum t name =
     (case get_column t name of
        None \<Rightarrow> None
      | Some column \<Rightarrow> Some (foldl sum_step f64_zero column))"

text \<open>
  The loop of \<open>average\<close>: \<open>sum += n; count += 1\<close> on each number. Nothing
  fixes the type of \<open>let mut count = 0\<close>, so Rust gives it the default \<open>i32\<close>;
  \<open>count += 1\<close> wraps around at \<open>2^31\<close> (the release profile; a debug build
  panics there instead), and \<open>count > 0\<close> compares the signed value.
\<close>

definition average_step :: "f64 \<times> i32 \<Rightarrow> Value \<Rightarrow> f64 \<times> i32" where
  "average_step sc v = (case v of Number n \<Rightarrow> (f64_add (fst sc) n, snd sc + 1) | _ \<Rightarrow> sc)"

definition table_average :: "Table \<Rightarrow> string \<Rightarrow> f64 option" where
  "table_average t name =
     (case get_column t name of
        None \<Rightarrow> None
      | Some column \<Rightarrow>
          (let (s, count) = foldl average_step (f64_zero, 0) column in
           if 0 <s count then Some (f64_div s (f64_of_nat (nat (sint count)))) else Some f64_zero))"

definition table_count :: "Table \<Rightarrow> string \<Rightarrow> nat option" where
  "table_count t name = map_option length (get_column t name)"

definition hash_set_insert :: "Value list \<Rightarrow> Value \<Rightarrow> Value list" where
  "hash_set_insert s x =
     (if list_ex (\<lambda>y. value_hash y = value_hash x \<and> value_eq y x) s then s else s @ [x])"

definition hash_set_from_iter :: "Value list \<Rightarrow> Value list" where
  "hash_set_from_iter xs = foldl hash_set_insert [] xs"

definition table_distinctcount :: "Table \<Rightarrow> string \<Rightarrow> nat option" where
  "table_distinctcount t name =
     map_option (\<lambda>column. length (hash_set_from_iter column)) (get_column t name)"

text \<open>\<open>|a, b| a.partial_cmp(b).unwrap_or(Ordering::Equal)\<close>.\<close>

definition f64_cmp_or_equal :: "f64 \<Rightarrow> f64 \<Rightarrow> ordering" where
  "f64_cmp_or_equal a b = (case f64_partial_cmp a b of Some r \<Rightarrow> r | None \<Rightarrow> Equal)"

definition table_min :: "Table \<Rightarrow> string \<Rightarrow> f64 option" where
  "table_min t name =
     (case get_column t name of
        None \<Rightarrow> None
      | Some column \<Rightarrow> iter_min_by f64_cmp_or_equal (numbers column))"

definition table_max :: "Table \<Rightarrow> string \<Rightarrow> f64 option" where
  "table_max t name =
     (case get_column t name of
        None \<Rightarrow> None
      | Some column \<Rightarrow> iter_max_by f64_cmp_or_equal (numbers column))"

text \<open>\<open>Table::divide\<close>: the alternate result when the denominator \<open>== 0.0\<close>.\<close>

definition table_divide :: "Table \<Rightarrow> f64 \<Rightarrow> f64 \<Rightarrow> f64 option \<Rightarrow> f64 option" where
  "table_divide t numerator denominator alternate_result =
     (if f64_eq denominator f64_zero then alternate_result
      else Some (f64_div numerator denominator))"

lemmas table_eval [dax_eval] =
  table_new_def get_column_def add_column_def numbers_def sum_step_def table_sum_def
  average_step_def table_average_def table_count_def hash_set_insert_def
  hash_set_from_iter_def table_distinctcount_def f64_cmp_or_equal_def table_min_def
  table_max_def table_divide_def iter_min_by_def iter_max_by_def cmp_min_by_def cmp_max_by_def
  word_sless_alt


section \<open>Storage\<close>

text \<open>A sequence of \<open>add_column\<close> calls: the last column added under a name wins.\<close>

lemma columns_foldl_add_column:
  "columns (foldl (\<lambda>t p. add_column t (key p) (vals p)) t ps)
   = columns t ++ map_of (rev (map (\<lambda>p. (key p, vals p)) ps))"
  by (induction ps arbitrary: t) (simp_all add: add_column_def)

section \<open>Properties of the aggregates\<close>

lemma numbers_Cons [simp]:
  "numbers (v # vs) = (case v of Number n \<Rightarrow> n # numbers vs | _ \<Rightarrow> numbers vs)"
  by (cases v) (simp_all add: numbers_def map_filter_simps)

lemma numbers_Nil [simp]: "numbers [] = []"
  by (simp add: numbers_def map_filter_simps)

lemma foldl_average_step:
  "foldl average_step (s, k) col = (foldl sum_step s col, k + word_of_nat (length (numbers col)))"
proof (induction col arbitrary: s k)
  case (Cons v vs)
  then show ?case by (cases v) (simp_all add: average_step_def sum_step_def)
qed simp

lemma table_average_count:
  assumes "get_column t c = Some col"
  shows "table_average t c =
    map_option (\<lambda>s. let n = length (numbers col) in
        if n mod 2^32 = 0 \<or> 2^31 \<le> n mod 2^32 then f64_zero else f64_div s (f64_of_nat (n mod 2^32)))
      (table_sum t c)"
  using assms i32_count_positive [of "length (numbers col)" "\<lambda>k. Some (f64_div (foldl sum_step f64_zero col) (f64_of_nat k))"]
  by (auto simp: table_average_def table_sum_def foldl_average_step Let_def)

text \<open>
  C10. Below \<open>2^31\<close> numeric entries, \<open>average\<close> is \<open>sum\<close> divided by the
  number of numeric entries (the same rounded additions in the same order), and
  \<open>0.0\<close> when the column holds no number.
\<close>

theorem table_average_via_sum:
  assumes "get_column t c = Some col" and "length (numbers col) < 2^31"
  shows "table_average t c =
    map_option (\<lambda>s. if numbers col = [] then f64_zero else f64_div s (f64_of_nat (length (numbers col))))
      (table_sum t c)"
proof -
  have m: "length (numbers col) mod 2^32 = length (numbers col)" using assms(2) by simp
  then show ?thesis using assms(2)
    by (simp only: table_average_count [OF assms(1)] Let_def m) simp
qed

text \<open>
  C17. The \<open>i32\<close> counter of \<open>average\<close> wraps: on a column with \<open>n\<close> numeric
  entries the sum is divided by \<open>n mod 2^32\<close> when that lies in
  \<open>(0, 2^31)\<close>, and the result is \<open>0.0\<close> otherwise. So a column with
  \<open>2^31\<close> to \<open>2^32 - 1\<close> numbers averages to \<open>0.0\<close>, and one with
  \<open>2^32 + k\<close> numbers is divided by \<open>k\<close>.
\<close>

theorem table_average_count_wraps:
  "table_average t c =
     (case get_column t c of
        None \<Rightarrow> None
      | Some col \<Rightarrow>
          (let n = length (numbers col) in
           if 2^31 \<le> n mod 2^32 \<or> n mod 2^32 = 0 then Some f64_zero
           else Some (f64_div (foldl sum_step f64_zero col) (f64_of_nat (n mod 2^32)))))"
proof (cases "get_column t c")
  case (Some col)
  show ?thesis using table_average_count [OF Some] Some
    by (auto simp: table_sum_def Let_def not_less)
qed (simp add: table_average_def)

text \<open>
  C13. Error behaviour of the aggregates: \<open>sum\<close>, \<open>average\<close>, \<open>count\<close> and
  \<open>distinctcount\<close> report no result exactly when the column is missing;
  \<open>min\<close> and \<open>max\<close> also when the column holds no number (never a zero).
\<close>

theorem aggregates_missing_column:
  "(table_sum t c = None \<longleftrightarrow> get_column t c = None)
   \<and> (table_average t c = None \<longleftrightarrow> get_column t c = None)
   \<and> (table_count t c = None \<longleftrightarrow> get_column t c = None)
   \<and> (table_distinctcount t c = None \<longleftrightarrow> get_column t c = None)
   \<and> (table_min t c = None \<longleftrightarrow> (case get_column t c of None \<Rightarrow> True | Some col \<Rightarrow> numbers col = []))
   \<and> (table_max t c = None \<longleftrightarrow> (case get_column t c of None \<Rightarrow> True | Some col \<Rightarrow> numbers col = []))"
  by (cases "get_column t c")
     (simp_all add: table_sum_def table_average_def table_count_def table_distinctcount_def
       table_min_def table_max_def iter_min_by_def iter_max_by_def foldl_average_step)

subsection \<open>\<open>min_by\<close>/\<open>max_by\<close> under \<open>partial_cmp(..).unwrap_or(Equal)\<close>\<close>

text \<open>
  A NaN compares \<open>Equal\<close> to everything: \<open>min_by\<close> keeps an accumulated NaN
  and skips a NaN element, \<open>max_by\<close> takes a NaN element and replaces an
  accumulated NaN by the next element. On NaN-free numbers both are extremal.
\<close>

lemma f64_cmp_or_equal_nan: "f64_is_nan a \<or> f64_is_nan b \<Longrightarrow> f64_cmp_or_equal a b = Equal"
  by (auto simp: f64_cmp_or_equal_def f64_partial_cmp_def)

lemma foldl_min_by_nan_acc:
  "f64_is_nan a \<Longrightarrow> foldl (cmp_min_by f64_cmp_or_equal) a xs = a"
  by (induction xs) (simp_all add: cmp_min_by_def f64_cmp_or_equal_nan)

lemma foldl_min_by_skip_nan:
  "\<not> f64_is_nan a \<Longrightarrow> foldl (cmp_min_by f64_cmp_or_equal) a xs
     = foldl (cmp_min_by f64_cmp_or_equal) a (filter (\<lambda>x. \<not> f64_is_nan x) xs)"
proof (induction xs arbitrary: a)
  case (Cons y ys)
  show ?case
  proof (cases "f64_is_nan y")
    case True
    then show ?thesis using Cons by (simp add: cmp_min_by_def f64_cmp_or_equal_nan)
  next
    case False
    have "\<not> f64_is_nan (cmp_min_by f64_cmp_or_equal a y)"
      using cmp_min_by_cases [of f64_cmp_or_equal a y] False Cons.prems by auto
    then show ?thesis using Cons.IH False by simp
  qed
qed simp

lemma foldl_max_by_from_nan:
  assumes "f64_is_nan n"
  shows "foldl (cmp_max_by f64_cmp_or_equal) a (xs @ n # ys) = foldl (cmp_max_by f64_cmp_or_equal) n ys"
    and "foldl (cmp_max_by f64_cmp_or_equal) n (y # ys) = foldl (cmp_max_by f64_cmp_or_equal) y ys"
  using assms by (simp_all add: cmp_max_by_def f64_cmp_or_equal_nan)

lemma iter_max_by_from_nan:
  "f64_is_nan n \<Longrightarrow> iter_max_by f64_cmp_or_equal (xs @ n # ys) = Some (foldl (cmp_max_by f64_cmp_or_equal) n ys)"
  by (cases xs) (simp_all add: iter_max_by_def foldl_max_by_from_nan(1) cmp_max_by_def f64_cmp_or_equal_nan)

lemma nan_free_cmp:
  "a \<in> {x. \<not> f64_is_nan x} \<Longrightarrow> b \<in> {x. \<not> f64_is_nan x} \<Longrightarrow> f64_cmp_or_equal a b =
     (if f64_xval a < f64_xval b then Less else if f64_xval a = f64_xval b then Equal else Greater)"
  by (simp add: f64_cmp_or_equal_def f64_partial_cmp_def)

lemma foldl_min_by_nan_free:
  assumes "list_all (\<lambda>x. \<not> f64_is_nan x) (y # ys)"
  shows "foldl (cmp_min_by f64_cmp_or_equal) y ys \<in> set (y # ys)
         \<and> (\<forall>x \<in> set (y # ys). f64_partial_cmp (foldl (cmp_min_by f64_cmp_or_equal) y ys) x \<noteq> Some Greater)"
proof -
  have "\<forall>x \<in> insert y (set ys). f64_xval (foldl (cmp_min_by f64_cmp_or_equal) y ys) \<le> f64_xval x"
    by (rule foldl_min_by_least [where S = "{x. \<not> f64_is_nan x}", OF nan_free_cmp])
       (use assms in \<open>auto simp: list_all_iff\<close>)
  moreover have "foldl (cmp_min_by f64_cmp_or_equal) y ys \<in> insert y (set ys)"
    by (rule foldl_cmp_in_set) (rule cmp_min_by_cases)
  ultimately show ?thesis by (simp add: f64_partial_cmp_not_Greater)
qed

lemma foldl_max_by_nan_free:
  assumes "list_all (\<lambda>x. \<not> f64_is_nan x) (y # ys)"
  shows "foldl (cmp_max_by f64_cmp_or_equal) y ys \<in> set (y # ys)
         \<and> (\<forall>x \<in> set (y # ys). f64_partial_cmp (foldl (cmp_max_by f64_cmp_or_equal) y ys) x \<noteq> Some Less)"
proof -
  have "\<forall>x \<in> insert y (set ys). f64_xval x \<le> f64_xval (foldl (cmp_max_by f64_cmp_or_equal) y ys)"
    by (rule foldl_max_by_greatest [where S = "{x. \<not> f64_is_nan x}", OF nan_free_cmp])
       (use assms in \<open>auto simp: list_all_iff\<close>)
  moreover have "foldl (cmp_max_by f64_cmp_or_equal) y ys \<in> insert y (set ys)"
    by (rule foldl_cmp_in_set) (rule cmp_max_by_cases)
  ultimately show ?thesis by (simp add: f64_partial_cmp_not_Less)
qed

text \<open>
  C11. On a column whose numbers include no NaN, \<open>min\<close> returns one of them that
  compares \<open>Less\<close> or \<open>Equal\<close> to every one of them.
\<close>

theorem table_min_least:
  assumes "get_column t c = Some col" and "numbers col \<noteq> []"
    and "list_all (\<lambda>x. \<not> f64_is_nan x) (numbers col)"
  shows "\<exists>m. table_min t c = Some m \<and> m \<in> set (numbers col)
             \<and> (\<forall>x \<in> set (numbers col). f64_partial_cmp m x \<noteq> Some Greater)"
proof -
  obtain y ys where ns: "numbers col = y # ys" using assms(2) by (cases "numbers col") auto
  have "table_min t c = Some (foldl (cmp_min_by f64_cmp_or_equal) y ys)"
    using assms(1) ns by (simp add: table_min_def iter_min_by_def)
  then show ?thesis using foldl_min_by_nan_free [of y ys] assms(3) ns by auto
qed

text \<open>
  C12. On a column whose numbers include no NaN, \<open>max\<close> returns one of them that
  compares \<open>Greater\<close> or \<open>Equal\<close> to every one of them.
\<close>

theorem table_max_greatest:
  assumes "get_column t c = Some col" and "numbers col \<noteq> []"
    and "list_all (\<lambda>x. \<not> f64_is_nan x) (numbers col)"
  shows "\<exists>m. table_max t c = Some m \<and> m \<in> set (numbers col)
             \<and> (\<forall>x \<in> set (numbers col). f64_partial_cmp m x \<noteq> Some Less)"
proof -
  obtain y ys where ns: "numbers col = y # ys" using assms(2) by (cases "numbers col") auto
  have "table_max t c = Some (foldl (cmp_max_by f64_cmp_or_equal) y ys)"
    using assms(1) ns by (simp add: table_max_def iter_max_by_def)
  then show ?thesis using foldl_max_by_nan_free [of y ys] assms(3) ns by auto
qed

text \<open>
  C14. With NaN among the numbers, \<open>min\<close> is decided by the first number:
  when it is NaN the result is that NaN; otherwise every NaN is skipped and the
  result is a non-NaN number not greater than any other non-NaN number.
\<close>

theorem table_min_nan:
  assumes "get_column t c = Some col" and "numbers col = x # xs"
  shows "(f64_is_nan x \<longrightarrow> table_min t c = Some x)
       \<and> (\<not> f64_is_nan x \<longrightarrow> (\<exists>m. table_min t c = Some m \<and> m \<in> set (x # xs) \<and> \<not> f64_is_nan m
              \<and> (\<forall>y \<in> set xs. \<not> f64_is_nan y \<longrightarrow> f64_partial_cmp m y \<noteq> Some Greater)))"
proof -
  have tm: "table_min t c = Some (foldl (cmp_min_by f64_cmp_or_equal) x xs)"
    using assms by (simp add: table_min_def iter_min_by_def)
  let ?ys = "filter (\<lambda>y. \<not> f64_is_nan y) xs"
  have "\<not> f64_is_nan x \<Longrightarrow> foldl (cmp_min_by f64_cmp_or_equal) x ?ys \<in> set (x # ?ys)
        \<and> (\<forall>y \<in> set (x # ?ys). f64_partial_cmp (foldl (cmp_min_by f64_cmp_or_equal) x ?ys) y \<noteq> Some Greater)"
    by (rule foldl_min_by_nan_free) (simp add: list_all_iff)
  then show ?thesis
    using tm foldl_min_by_nan_acc [of x xs] foldl_min_by_skip_nan [of x xs] by auto
qed

text \<open>
  C15. With NaN among the numbers, \<open>max\<close> forgets every number before the last
  NaN: when the last number is NaN the result is that NaN; otherwise it is a
  number after the last NaN not less than any number after it, whatever the
  numbers before it (so \<open>max\<close> of \<open>[5, NaN, 1]\<close> is \<open>1\<close>).
\<close>

theorem table_max_nan:
  assumes "get_column t c = Some col" and "numbers col = pre @ n # ys"
    and "f64_is_nan n" and "list_all (\<lambda>y. \<not> f64_is_nan y) ys"
  shows "(ys = [] \<longrightarrow> table_max t c = Some n)
       \<and> (ys \<noteq> [] \<longrightarrow> (\<exists>m. table_max t c = Some m \<and> m \<in> set ys
              \<and> (\<forall>y \<in> set ys. f64_partial_cmp m y \<noteq> Some Less)))"
proof -
  have tm: "table_max t c = Some (foldl (cmp_max_by f64_cmp_or_equal) n ys)"
    using assms(1-3) by (simp add: table_max_def iter_max_by_from_nan)
  show ?thesis
  proof (cases ys)
    case (Cons y ys')
    then show ?thesis
      using tm foldl_max_by_from_nan(2) [OF assms(3)] foldl_max_by_nan_free [of y ys'] assms(4) by auto
  qed (simp add: tm)
qed

section \<open>DISTINCTCOUNT and the hash set\<close>

lemma hash_set_insert_canon:
  assumes "distinct (map value_hash_canon s)"
  shows "distinct (map value_hash_canon (hash_set_insert s x))
         \<and> value_hash_canon ` set (hash_set_insert s x) = insert (value_hash_canon x) (value_hash_canon ` set s)"
proof -
  have "list_ex (\<lambda>y. value_hash y = value_hash x \<and> value_eq y x) s
        \<longleftrightarrow> value_hash_canon x \<in> value_hash_canon ` set s"
    unfolding list_ex_iff value_hash_key_iff image_iff by (metis (mono_tags))
  with assms show ?thesis by (auto simp: hash_set_insert_def)
qed

lemma foldl_hash_set_insert_canon:
  "distinct (map value_hash_canon s) \<Longrightarrow>
   distinct (map value_hash_canon (foldl hash_set_insert s xs))
   \<and> value_hash_canon ` set (foldl hash_set_insert s xs) = value_hash_canon ` (set s \<union> set xs)"
proof (induction xs arbitrary: s)
  case (Cons x xs)
  then show ?case using hash_set_insert_canon [OF Cons.prems, of x] by auto
qed simp

lemma length_hash_set_from_iter:
  "length (hash_set_from_iter xs) = card (value_hash_canon ` set xs)"
proof -
  have "distinct (map value_hash_canon (hash_set_from_iter xs))
        \<and> value_hash_canon ` set (hash_set_from_iter xs) = value_hash_canon ` set xs"
    using foldl_hash_set_insert_canon [of "[]" xs] by (simp add: hash_set_from_iter_def)
  then show ?thesis by (metis distinct_card length_map set_map)
qed

lemma table_distinctcount_hash_classes:
  "get_column t c = Some col \<Longrightarrow> table_distinctcount t c = Some (card (value_hash_canon ` set col))"
  by (simp add: table_distinctcount_def length_hash_set_from_iter)

text \<open>
  C9. \<open>distinctcount\<close> refines its specification: on a column that does not hold
  both zeros it is the number of \<open>==\<close>-classes of the column (all NaNs one class).
\<close>

theorem table_distinctcount_classes:
  assumes "get_column t c = Some col"
    and "\<not> (Number f64_zero \<in> set col \<and> Number f64_neg_zero \<in> set col)"
  shows "table_distinctcount t c = Some (card (value_canon ` set col))"
proof -
  have "card (value_canon ` value_hash_canon ` set col) = card (value_hash_canon ` set col)"
    using value_canon_inj_on_hash_classes [OF assms(2)] by (rule card_image)
  moreover have "value_canon ` value_hash_canon ` set col = value_canon ` set col"
    by (simp add: image_image)
  ultimately show ?thesis using table_distinctcount_hash_classes [OF assms(1)] by simp
qed

lemma value_hash_canon_neg_zero_iff:
  "value_hash_canon v = Number f64_neg_zero \<longleftrightarrow> v = Number f64_neg_zero"
proof (cases v)
  case (Number x)
  have "f64_nan \<noteq> f64_neg_zero" "\<not> f64_is_nan f64_neg_zero" by (simp_all add: dax_eval)
  then show ?thesis using Number by auto
qed simp_all


section \<open>Witnesses\<close>

lemma get_column_add_column_same [simp]: "get_column (add_column t n vs) n = Some vs"
  by (simp add: get_column_def add_column_def)

theorem table_average_via_sum_witness:
  "get_column (add_column table_new ''A'' [Number (f64_of_nat 1), Text ''none'', Number (f64_of_nat 3)]) ''A'' = Some [Number (f64_of_nat 1), Text ''none'', Number (f64_of_nat 3)]
   \<and> length (numbers [Number (f64_of_nat 1), Text ''none'', Number (f64_of_nat 3)]) < 2^31
   \<and> table_average (add_column table_new ''A'' [Number (f64_of_nat 1), Text ''none'', Number (f64_of_nat 3)]) ''A'' = Some (f64_of_nat 2)"
proof -
  have g: "get_column (add_column table_new ''A'' [Number (f64_of_nat 1), Text ''none'', Number (f64_of_nat 3)]) ''A'' = Some [Number (f64_of_nat 1), Text ''none'', Number (f64_of_nat 3)]" by simp
  have n: "length (numbers [Number (f64_of_nat 1), Text ''none'', Number (f64_of_nat 3)]) < 2^31"
    by (simp add: numbers_def map_filter_simps)
  have "table_average (add_column table_new ''A'' [Number (f64_of_nat 1), Text ''none'', Number (f64_of_nat 3)]) ''A''
        = map_option (\<lambda>s. if numbers [Number (f64_of_nat 1), Text ''none'', Number (f64_of_nat 3)] = [] then f64_zero
            else f64_div s (f64_of_nat (length (numbers [Number (f64_of_nat 1), Text ''none'', Number (f64_of_nat 3)])))) (table_sum (add_column table_new ''A'' [Number (f64_of_nat 1), Text ''none'', Number (f64_of_nat 3)]) ''A'')"
    by (rule table_average_via_sum [OF g n])
  also have "\<dots> = Some (f64_of_nat 2)"
    by (simp add: dax_eval map_filter_simps Let_def cong: let_weak_cong)
  finally show ?thesis using g n by simp
qed

theorem table_min_least_witness:
  "get_column (add_column table_new ''A'' [Number (f64_of_nat 3), Null, Number (f64_of_nat 1), Number (f64_of_nat 2)]) ''A'' = Some [Number (f64_of_nat 3), Null, Number (f64_of_nat 1), Number (f64_of_nat 2)] \<and> numbers [Number (f64_of_nat 3), Null, Number (f64_of_nat 1), Number (f64_of_nat 2)] \<noteq> []
   \<and> list_all (\<lambda>x. \<not> f64_is_nan x) (numbers [Number (f64_of_nat 3), Null, Number (f64_of_nat 1), Number (f64_of_nat 2)])
   \<and> (\<exists>m. table_min (add_column table_new ''A'' [Number (f64_of_nat 3), Null, Number (f64_of_nat 1), Number (f64_of_nat 2)]) ''A'' = Some m \<and> m \<in> set (numbers [Number (f64_of_nat 3), Null, Number (f64_of_nat 1), Number (f64_of_nat 2)])
          \<and> list_all (\<lambda>x. f64_partial_cmp m x \<noteq> Some Greater) (numbers [Number (f64_of_nat 3), Null, Number (f64_of_nat 1), Number (f64_of_nat 2)]))"
proof -
  have g: "get_column (add_column table_new ''A'' [Number (f64_of_nat 3), Null, Number (f64_of_nat 1), Number (f64_of_nat 2)]) ''A'' = Some [Number (f64_of_nat 3), Null, Number (f64_of_nat 1), Number (f64_of_nat 2)]" by simp
  have n: "numbers [Number (f64_of_nat 3), Null, Number (f64_of_nat 1), Number (f64_of_nat 2)] \<noteq> []" by simp
  have nn: "list_all (\<lambda>x. \<not> f64_is_nan x) (numbers [Number (f64_of_nat 3), Null, Number (f64_of_nat 1), Number (f64_of_nat 2)])"
    by (simp add: dax_eval map_filter_simps Let_def cong: let_weak_cong)
  from table_min_least [OF g n nn] show ?thesis using g n nn unfolding list_all_iff by blast
qed

theorem table_max_greatest_witness:
  "get_column (add_column table_new ''A'' [Number (f64_of_nat 3), Null, Number (f64_of_nat 1), Number (f64_of_nat 2)]) ''A'' = Some [Number (f64_of_nat 3), Null, Number (f64_of_nat 1), Number (f64_of_nat 2)] \<and> numbers [Number (f64_of_nat 3), Null, Number (f64_of_nat 1), Number (f64_of_nat 2)] \<noteq> []
   \<and> list_all (\<lambda>x. \<not> f64_is_nan x) (numbers [Number (f64_of_nat 3), Null, Number (f64_of_nat 1), Number (f64_of_nat 2)])
   \<and> (\<exists>m. table_max (add_column table_new ''A'' [Number (f64_of_nat 3), Null, Number (f64_of_nat 1), Number (f64_of_nat 2)]) ''A'' = Some m \<and> m \<in> set (numbers [Number (f64_of_nat 3), Null, Number (f64_of_nat 1), Number (f64_of_nat 2)])
          \<and> list_all (\<lambda>x. f64_partial_cmp m x \<noteq> Some Less) (numbers [Number (f64_of_nat 3), Null, Number (f64_of_nat 1), Number (f64_of_nat 2)]))"
proof -
  have g: "get_column (add_column table_new ''A'' [Number (f64_of_nat 3), Null, Number (f64_of_nat 1), Number (f64_of_nat 2)]) ''A'' = Some [Number (f64_of_nat 3), Null, Number (f64_of_nat 1), Number (f64_of_nat 2)]" by simp
  have n: "numbers [Number (f64_of_nat 3), Null, Number (f64_of_nat 1), Number (f64_of_nat 2)] \<noteq> []" by simp
  have nn: "list_all (\<lambda>x. \<not> f64_is_nan x) (numbers [Number (f64_of_nat 3), Null, Number (f64_of_nat 1), Number (f64_of_nat 2)])"
    by (simp add: dax_eval map_filter_simps Let_def cong: let_weak_cong)
  from table_max_greatest [OF g n nn] show ?thesis using g n nn unfolding list_all_iff by blast
qed

theorem table_distinctcount_classes_witness:
  "get_column (add_column table_new ''A'' [Number f64_nan, Number (f64_of_fields True 2047 1), Number (f64_inf False), Number (f64_inf True)]) ''A'' = Some [Number f64_nan, Number (f64_of_fields True 2047 1), Number (f64_inf False), Number (f64_inf True)]
   \<and> \<not> (Number f64_zero \<in> set [Number f64_nan, Number (f64_of_fields True 2047 1), Number (f64_inf False), Number (f64_inf True)] \<and> Number f64_neg_zero \<in> set [Number f64_nan, Number (f64_of_fields True 2047 1), Number (f64_inf False), Number (f64_inf True)])
   \<and> table_distinctcount (add_column table_new ''A'' [Number f64_nan, Number (f64_of_fields True 2047 1), Number (f64_inf False), Number (f64_inf True)]) ''A'' = Some 3"
proof -
  have g: "get_column (add_column table_new ''A'' [Number f64_nan, Number (f64_of_fields True 2047 1), Number (f64_inf False), Number (f64_inf True)]) ''A'' = Some [Number f64_nan, Number (f64_of_fields True 2047 1), Number (f64_inf False), Number (f64_inf True)]" by simp
  have z: "\<not> (Number f64_zero \<in> set [Number f64_nan, Number (f64_of_fields True 2047 1), Number (f64_inf False), Number (f64_inf True)] \<and> Number f64_neg_zero \<in> set [Number f64_nan, Number (f64_of_fields True 2047 1), Number (f64_inf False), Number (f64_inf True)])"
    by (simp add: dax_eval)
  have "table_distinctcount (add_column table_new ''A'' [Number f64_nan, Number (f64_of_fields True 2047 1), Number (f64_inf False), Number (f64_inf True)]) ''A'' = Some (card (value_canon ` set [Number f64_nan, Number (f64_of_fields True 2047 1), Number (f64_inf False), Number (f64_inf True)]))"
    by (rule table_distinctcount_classes [OF g z])
  also have "card (value_canon ` set [Number f64_nan, Number (f64_of_fields True 2047 1), Number (f64_inf False), Number (f64_inf True)]) = 3"
    by (simp add: dax_eval)
  finally show ?thesis using g z by simp
qed


theorem table_min_nan_witness:
  "numbers [Number f64_nan, Number (f64_of_nat 1)] = f64_nan # [f64_of_nat 1] \<and> f64_is_nan f64_nan
   \<and> table_min (add_column table_new ''A'' [Number f64_nan, Number (f64_of_nat 1)]) ''A'' = Some f64_nan
   \<and> numbers [Number (f64_of_nat 3), Number f64_nan, Number (f64_of_nat 1)] = f64_of_nat 3 # [f64_nan, f64_of_nat 1]
   \<and> \<not> f64_is_nan (f64_of_nat 3)
   \<and> (\<exists>m. table_min (add_column table_new ''A'' [Number (f64_of_nat 3), Number f64_nan, Number (f64_of_nat 1)]) ''A'' = Some m
          \<and> \<not> f64_is_nan m \<and> f64_partial_cmp m (f64_of_nat 1) \<noteq> Some Greater)"
proof -
  have n1: "numbers [Number f64_nan, Number (f64_of_nat 1)] = f64_nan # [f64_of_nat 1]" "f64_is_nan f64_nan"
    by (simp_all add: dax_eval map_filter_simps)
  have n2: "numbers [Number (f64_of_nat 3), Number f64_nan, Number (f64_of_nat 1)] = f64_of_nat 3 # [f64_nan, f64_of_nat 1]"
    "\<not> f64_is_nan (f64_of_nat 3)" "\<not> f64_is_nan (f64_of_nat 1)"
    by (simp_all add: dax_eval map_filter_simps Let_def cong: let_weak_cong)
  show ?thesis
    using table_min_nan [OF get_column_add_column_same [of table_new "''A''"] n1(1)] table_min_nan [OF get_column_add_column_same [of table_new "''A''"] n2(1)] n1 n2
    by auto
qed

theorem table_max_nan_witness:
  "numbers [Number (f64_of_nat 5), Number f64_nan, Number (f64_of_nat 1)] = [f64_of_nat 5] @ f64_nan # [f64_of_nat 1]
   \<and> f64_is_nan f64_nan \<and> list_all (\<lambda>y. \<not> f64_is_nan y) [f64_of_nat 1]
   \<and> table_max (add_column table_new ''A'' [Number (f64_of_nat 5), Number f64_nan, Number (f64_of_nat 1)]) ''A'' = Some (f64_of_nat 1)
   \<and> f64_partial_cmp (f64_of_nat 5) (f64_of_nat 1) = Some Greater
   \<and> numbers [Number (f64_of_nat 1), Number f64_nan] = [f64_of_nat 1] @ f64_nan # []
   \<and> table_max (add_column table_new ''A'' [Number (f64_of_nat 1), Number f64_nan]) ''A'' = Some f64_nan"
proof -
  have n1: "numbers [Number (f64_of_nat 5), Number f64_nan, Number (f64_of_nat 1)] = [f64_of_nat 5] @ f64_nan # [f64_of_nat 1]"
    "f64_is_nan f64_nan" "list_all (\<lambda>y. \<not> f64_is_nan y) [f64_of_nat 1]"
    "f64_partial_cmp (f64_of_nat 5) (f64_of_nat 1) = Some Greater"
    by (simp_all add: dax_eval map_filter_simps less_xval_def Let_def cong: let_weak_cong)
  have n2: "numbers [Number (f64_of_nat 1), Number f64_nan] = [f64_of_nat 1] @ f64_nan # []" "list_all (\<lambda>y. \<not> f64_is_nan y) []"
    by (simp_all add: dax_eval map_filter_simps)
  show ?thesis
    using table_max_nan [OF get_column_add_column_same [of table_new "''A''"] n1(1-3)] table_max_nan [OF get_column_add_column_same [of table_new "''A''"] n2(1) n1(2) n2(2)] n1 n2
    by auto
qed



end
