(* ===== verification/Dax_Parse_F64.thy ===== *)
theory Dax_Parse_F64
  imports Dax_F64
begin

text \<open>
  \<open>str::parse::<f64>\<close> of Rust's core library (\<open>dec2flt\<close>), which the program
  calls in two places: on the run of digits and dots the tokenizer collects
  (\<open>src/dax-macro-impl/src/lib.rs\<close>) and on every CSV cell
  (\<open>parse_value\<close> in \<open>src/src/io.rs\<close>). The accepted grammar is
  \<open>[+-]? (inf | infinity | nan)\<close>, case-insensitive, or
  \<open>[+-]? (d+ | d+ . d* | d* . d+) ([eE] [+-]? d+)?\<close>; anything else
  (including surrounding blanks) is an error. A decimal is rounded to the nearest
  \<open>f64\<close>, ties to even, overflowing to an infinity and underflowing to a zero of
  the sign read; \<open>-nan\<close> is the NaN with the sign bit set. Also the ASCII case
  folding of \<open>str::eq_ignore_ascii_case\<close>.
\<close>

definition is_ascii_digit :: "char \<Rightarrow> bool" where
  "is_ascii_digit c \<longleftrightarrow> (let n = of_char c :: nat in 48 \<le> n \<and> n \<le> 57)"

definition digits_value :: "string \<Rightarrow> nat" where
  "digits_value s = foldl (\<lambda>acc c. 10 * acc + (of_char c - 48)) 0 s"

text \<open>\<open>u8::to_ascii_lowercase\<close>: an upper-case ASCII letter gets bit 5 (\<open>0x20\<close>) set.\<close>

definition ascii_lower :: "char \<Rightarrow> char" where
  "ascii_lower c =
     (let n = of_char c :: nat in
      if 65 \<le> n \<and> n \<le> 90
      then Char (digit0 c) (digit1 c) (digit2 c) (digit3 c) (digit4 c) True (digit6 c) (digit7 c)
      else c)"

definition eq_ignore_ascii_case :: "string \<Rightarrow> string \<Rightarrow> bool" where
  "eq_ignore_ascii_case a b \<longleftrightarrow> map ascii_lower a = map ascii_lower b"

text \<open>An optional leading sign: \<open>(negative, rest)\<close>.\<close>

definition split_sign :: "string \<Rightarrow> bool \<times> string" where
  "split_sign s =
     (case s of
        [] \<Rightarrow> (False, [])
      | c # r \<Rightarrow> if c = CHR ''-'' then (True, r) else if c = CHR ''+'' then (False, r) else (False, s))"

text \<open>The exponent part: empty (exponent 0) or \<open>[eE] [+-]? d+\<close>.\<close>

definition parse_exponent :: "string \<Rightarrow> int option" where
  "parse_exponent s =
     (case s of
        [] \<Rightarrow> Some 0
      | c # r \<Rightarrow>
          if c = CHR ''e'' \<or> c = CHR ''E'' then
            (let (neg, ds) = split_sign r in
             if ds \<noteq> [] \<and> list_all is_ascii_digit ds
             then Some (if neg then - int (digits_value ds) else int (digits_value ds))
             else None)
          else None)"

text \<open>The nearest \<open>f64\<close> to \<open>\<plusminus>m \<cdot> 10^k\<close>.\<close>

definition f64_of_decimal_exp :: "bool \<Rightarrow> nat \<Rightarrow> int \<Rightarrow> f64" where
  "f64_of_decimal_exp neg m k =
     (if m = 0 then f64_of_fields neg 0 0
      else if 0 \<le> k then f64_round neg (m * 10 ^ nat k) 1 0
      else f64_round neg m (10 ^ nat (- k)) 0)"

definition parse_decimal :: "bool \<Rightarrow> string \<Rightarrow> f64 option" where
  "parse_decimal neg s =
     (let ip = takeWhile is_ascii_digit s;
          r1 = dropWhile is_ascii_digit s;
          (fp, r2) = (case r1 of
                        [] \<Rightarrow> ([], [])
                      | c # r \<Rightarrow> if c = CHR ''.'' then (takeWhile is_ascii_digit r, dropWhile is_ascii_digit r)
                                 else ([], r1))
      in if ip = [] \<and> fp = [] then None
         else map_option (\<lambda>e. f64_of_decimal_exp neg (digits_value (ip @ fp)) (e - int (length fp)))
                (parse_exponent r2))"

definition f64_from_str :: "string \<Rightarrow> f64 option" where
  "f64_from_str s =
     (let (neg, body) = split_sign s in
      if eq_ignore_ascii_case body ''inf'' \<or> eq_ignore_ascii_case body ''infinity'' then Some (f64_inf neg)
      else if eq_ignore_ascii_case body ''nan'' then Some (f64_of_fields neg 2047 (2 ^ 51))
      else parse_decimal neg body)"

lemmas parse_f64_eval [dax_eval] =
  is_ascii_digit_def digits_value_def ascii_lower_def eq_ignore_ascii_case_def split_sign_def
  parse_exponent_def f64_of_decimal_exp_def parse_decimal_def f64_from_str_def

end
