(* ===== verification/Dax_Tokenizer.thy ===== *)
theory Dax_Tokenizer
  imports Dax_Parse_F64
begin

text \<open>
  The runtime tokenizer \<open>tokenize\<close> of \<open>src/dax-macro-impl/src/lib.rs\<close>
  (shared by \<open>Table::evaluate_dax\<close> and the \<open>parse_dax!\<close> macro) and the token
  type \<open>DaxToken\<close> with its \<open>Display\<close>. The Rust loop peeks one character and
  dispatches on it; each arm becomes one branch of \<open>tokenize_chars\<close>, the inner
  \<open>while\<close> loops become \<open>takeWhile\<close>/\<open>dropWhile\<close>. Characters are read as
  the code points U+0000 to U+00FF, so \<open>char::is_alphabetic\<close> is the Unicode
  \<open>Alphabetic\<close> property on that block.
\<close>

datatype DaxToken =
    TkFunction string
  | TkNumber f64
  | TkOperator char
  | TkColumn string
  | TkComma
  | TkParenOpen
  | TkParenClose
  | TkWhitespace

section \<open>Character classes\<close>

definition is_ascii_alpha :: "char \<Rightarrow> bool" where
  "is_ascii_alpha c \<longleftrightarrow> (let n = of_char c :: nat in (65 \<le> n \<and> n \<le> 90) \<or> (97 \<le> n \<and> n \<le> 122))"

text \<open>\<open>char::is_alphabetic\<close> on U+0000..U+00FF: the ASCII letters, U+00AA,
  U+00B5, U+00BA and the Latin-1 letters U+00C0..U+00FF except U+00D7 and U+00F7
  (the multiplication and division signs).\<close>

definition is_alphabetic :: "char \<Rightarrow> bool" where
  "is_alphabetic c \<longleftrightarrow> is_ascii_alpha c \<or>
     (let n = of_char c :: nat in
      n = 170 \<or> n = 181 \<or> n = 186 \<or> (192 \<le> n \<and> n \<le> 214) \<or> (216 \<le> n \<and> n \<le> 246) \<or> 248 \<le> n)"

text \<open>The inner loop of the number arm: \<open>d.is_digit(10) || d == '.'\<close>.\<close>

definition is_num_char :: "char \<Rightarrow> bool" where
  "is_num_char c \<longleftrightarrow> is_ascii_digit c \<or> c = CHR ''.''"

definition is_operator_char :: "char \<Rightarrow> bool" where
  "is_operator_char c \<longleftrightarrow> c \<in> set ''+-*/''"

definition is_ws_char :: "char \<Rightarrow> bool" where
  "is_ws_char c \<longleftrightarrow> c \<in> {CHR '' '', CHR 0x09, CHR 0x0A, CHR 0x0D}"

section \<open>The tokenizer\<close>

text \<open>
  One turn of \<open>while let Some(&c) = chars.peek()\<close>: the peeked character \<open>c\<close>
  and the rest \<open>cs\<close> give the token the arm pushes (if any) and the input
  left after the arm's \<open>chars.next()\<close> calls. The number arm collects the
  run of digits and dots and reads it with \<open>num.parse::<f64>()\<close>
  (\<open>f64_from_str\<close>); a failed parse pushes nothing.
\<close>

definition lex_step :: "char \<Rightarrow> char list \<Rightarrow> DaxToken option \<times> char list" where
  "lex_step c cs =
     (if is_ascii_digit c then
        (map_option TkNumber (f64_from_str (c # takeWhile is_num_char cs)),
         dropWhile is_num_char cs)
      else if c = CHR ''['' then
        (Some (TkColumn (takeWhile (\<lambda>d. d \<noteq> CHR '']'') cs)),
         drop 1 (dropWhile (\<lambda>d. d \<noteq> CHR '']'') cs))
      else if c = CHR ''('' then (Some TkParenOpen, cs)
      else if c = CHR '')'' then (Some TkParenClose, cs)
      else if c = CHR '','' then (Some TkComma, cs)
      else if is_operator_char c then (Some (TkOperator c), cs)
      else if is_ws_char c then (Some TkWhitespace, cs)
      else if is_ascii_alpha c then
        (Some (TkFunction (c # takeWhile is_alphabetic cs)), dropWhile is_alphabetic cs)
      else (None, cs))"

function tokenize_chars :: "char list \<Rightarrow> DaxToken list" where
  "tokenize_chars [] = []"
| "tokenize_chars (c # cs) =
     (case fst (lex_step c cs) of None \<Rightarrow> [] | Some tok \<Rightarrow> [tok])
       @ tokenize_chars (snd (lex_step c cs))"
  by pat_completeness auto
termination
  by (relation "measure length") (auto simp: lex_step_def less_Suc_eq_le)

definition tokenize :: "string \<Rightarrow> DaxToken list" where
  "tokenize input = tokenize_chars input"

section \<open>Display\<close>

text \<open>
  \<open>impl Display for DaxToken\<close>: names are written bare (a column without its
  brackets), an operator as its character, whitespace as one space. The
  \<open>Number\<close> arm writes the shortest decimal that reads back as the same
  \<open>f64\<close>; it is kept abstract as the parameter \<open>show_f64\<close>.
\<close>

fun token_display :: "(f64 \<Rightarrow> string) \<Rightarrow> DaxToken \<Rightarrow> string" where
  "token_display show_f64 (TkFunction name) = name"
| "token_display show_f64 (TkNumber n) = show_f64 n"
| "token_display show_f64 (TkOperator op) = [op]"
| "token_display show_f64 (TkColumn name) = name"
| "token_display show_f64 TkComma = '',''"
| "token_display show_f64 TkParenOpen = ''(''"
| "token_display show_f64 TkParenClose = '')''"
| "token_display show_f64 TkWhitespace = '' ''"

section \<open>Well-formed tokens\<close>

text \<open>
  What the tokenizer can produce: a function name is a non-empty run of
  alphabetic characters starting with an ASCII letter; a number is neither NaN
  nor negative; an operator is one of \<open>+ - * /\<close>; a column name has no
  \<open>]\<close>.
\<close>

fun wf_token :: "DaxToken \<Rightarrow> bool" where
  "wf_token (TkFunction name) = (name \<noteq> [] \<and> is_ascii_alpha (hd name) \<and> list_all is_alphabetic name)"
| "wf_token (TkNumber n) = (\<not> f64_is_nan n \<and> \<not> f64_sign n)"
| "wf_token (TkOperator c) = is_operator_char c"
| "wf_token (TkColumn name) = (CHR '']'' \<notin> set name)"
| "wf_token _ = True"

section \<open>Canonical text of a token\<close>

text \<open>
  The text from which the tokenizer reads a token back: a column in brackets,
  whitespace as one space. A number has no canonical text here (its \<open>Display\<close>
  is left abstract), so \<open>print_tokens\<close> is defined on number-free lists.
\<close>


fun token_text :: "DaxToken \<Rightarrow> string option" where
  "token_text (TkFunction name) = Some name"
| "token_text (TkNumber n) = None"
| "token_text (TkOperator c) = Some [c]"
| "token_text (TkColumn name) = Some (CHR ''['' # name @ '']'')"
| "token_text TkComma = Some '',''"
| "token_text TkParenOpen = Some ''(''"
| "token_text TkParenClose = Some '')''"
| "token_text TkWhitespace = Some '' ''"

fun print_tokens :: "DaxToken list \<Rightarrow> string option" where
  "print_tokens [] = Some []"
| "print_tokens (t # ts) =
     (case token_text t of None \<Rightarrow> None | Some w \<Rightarrow> map_option ((@) w) (print_tokens ts))"

fun no_adjacent_functions :: "DaxToken list \<Rightarrow> bool" where
  "no_adjacent_functions (TkFunction _ # TkFunction _ # _) = False"
| "no_adjacent_functions (_ # ts) = no_adjacent_functions ts"
| "no_adjacent_functions [] = True"

fun is_function_token :: "DaxToken \<Rightarrow> bool" where
  "is_function_token (TkFunction _) = True"
| "is_function_token _ = False"

lemmas tokenizer_eval [dax_eval] =
  tokenize_def is_ascii_alpha_def is_alphabetic_def is_num_char_def
  is_operator_char_def is_ws_char_def lex_step_def

section \<open>Tokenizing a function call\<close>


lemma ascii_alpha_classes:
  assumes "is_ascii_alpha c"
  shows "\<not> is_ascii_digit c \<and> c \<noteq> CHR ''['' \<and> c \<noteq> CHR ''('' \<and> c \<noteq> CHR '')''
    \<and> c \<noteq> CHR '','' \<and> \<not> is_operator_char c \<and> \<not> is_ws_char c \<and> is_alphabetic c"
  using assms by (auto simp: is_ascii_alpha_def is_ascii_digit_def is_operator_char_def
      is_ws_char_def is_alphabetic_def Let_def)

lemma tokenize_chars_function:
  assumes "is_ascii_alpha x" and "\<forall>y \<in> set xs. is_alphabetic y"
    and "rest = [] \<or> \<not> is_alphabetic (hd rest)"
  shows "tokenize_chars (x # xs @ rest) = TkFunction (x # xs) # tokenize_chars rest"
proof (cases rest)
  case Nil
  have "dropWhile is_alphabetic xs = []" and "takeWhile is_alphabetic xs = xs"
    using assms(2) by (simp_all add: dropWhile_eq_Nil_conv takeWhile_eq_all_conv)
  then show ?thesis using Nil assms(1) ascii_alpha_classes [OF assms(1)]
    by (simp add: lex_step_def del: dropWhile_eq_Nil_conv)
next
  case (Cons z zs)
  then show ?thesis using assms ascii_alpha_classes [OF assms(1)]
    by (simp add: lex_step_def takeWhile_append_stop dropWhile_append_stop)
qed

lemma tokenize_chars_column:
  assumes "CHR '']'' \<notin> set c"
  shows "tokenize_chars (CHR ''['' # c @ CHR '']'' # rest) = TkColumn c # tokenize_chars rest"
proof -
  have "\<forall>d \<in> set c. d \<noteq> CHR '']''" using assms by auto
  then show ?thesis by (simp add: dax_eval takeWhile_append_stop dropWhile_append_stop)
qed

lemma tokenize_call:
  assumes "f \<noteq> []" "is_ascii_alpha (hd f)" "\<forall>y \<in> set f. is_alphabetic y" "CHR '']'' \<notin> set c"
  shows "tokenize (f @ CHR ''('' # CHR ''['' # c @ CHR '']'' # rest)
         = [TkFunction f, TkParenOpen, TkColumn c] @ tokenize rest"
proof -
  obtain x xs where f: "f = x # xs" using assms(1) by (cases f) auto
  have np: "\<not> is_alphabetic CHR ''(''" by (simp add: dax_eval)
  have "tokenize_chars (x # xs @ CHR ''('' # CHR ''['' # c @ CHR '']'' # rest)
        = TkFunction f # tokenize_chars (CHR ''('' # CHR ''['' # c @ CHR '']'' # rest)"
    using tokenize_chars_function [of x xs "CHR ''('' # CHR ''['' # c @ CHR '']'' # rest"] np assms(2,3) f
    by simp
  also have "\<dots> = TkFunction f # TkParenOpen # TkColumn c # tokenize_chars rest"
    using tokenize_chars_column [OF assms(4)] by (simp add: dax_eval)
  finally show ?thesis using f by (simp add: tokenize_def)
qed


section \<open>The number arm\<close>

lemma num_chars_no_dot:
  "list_all is_num_char s \<Longrightarrow> CHR ''.'' \<notin> set s \<Longrightarrow> takeWhile is_ascii_digit s = s \<and> dropWhile is_ascii_digit s = []"
  by (induction s) (auto simp: is_num_char_def)

lemma num_chars_dot:
  "list_all is_num_char s \<Longrightarrow> CHR ''.'' \<in> set s \<Longrightarrow> \<exists>r. dropWhile is_ascii_digit s = CHR ''.'' # r"
  by (induction s) (auto simp: is_num_char_def is_ascii_digit_def)

lemma f64_of_decimal_exp_decimal: "f64_of_decimal_exp False m (- int k) = f64_of_decimal m k"
  by (simp add: f64_of_decimal_exp_def f64_of_decimal_def f64_of_fields_def)

text \<open>A text that starts with neither a sign nor a letter of \<open>inf\<close>/\<open>nan\<close> is parsed as an unsigned decimal.\<close>

lemma f64_from_str_plain:
  assumes "c \<noteq> CHR ''-''" "c \<noteq> CHR ''+''" "ascii_lower c \<noteq> CHR ''i''" "ascii_lower c \<noteq> CHR ''n''"
  shows "f64_from_str (c # r) = parse_decimal False (c # r)"
proof -
  have "\<not> eq_ignore_ascii_case (c # r) w" if "w \<in> {''inf'', ''infinity'', ''nan''}" for w
    using that assms(3,4) by (auto simp: eq_ignore_ascii_case_def ascii_lower_def)
  then show ?thesis using assms(1,2) by (simp add: f64_from_str_def split_sign_def)
qed

lemma digit_plain:
  "is_ascii_digit c \<Longrightarrow> c \<noteq> CHR ''-'' \<and> c \<noteq> CHR ''+'' \<and> c \<noteq> CHR ''.''
     \<and> ascii_lower c \<noteq> CHR ''i'' \<and> ascii_lower c \<noteq> CHR ''n''"
  by (auto simp: is_ascii_digit_def ascii_lower_def Let_def)

lemma parse_decimal_digits:
  assumes "ds \<noteq> []" and "list_all is_ascii_digit ds"
  shows "parse_decimal False ds = Some (f64_of_decimal (digits_value ds) 0)"
proof -
  have "takeWhile is_ascii_digit ds = ds" "dropWhile is_ascii_digit ds = []"
    using assms(2) by (simp_all add: list_all_iff takeWhile_eq_all_conv dropWhile_eq_Nil_conv)
  then show ?thesis using assms(1) f64_of_decimal_exp_decimal [of _ 0]
    by (simp add: parse_decimal_def parse_exponent_def Let_def
        del: takeWhile_eq_all_conv dropWhile_eq_Nil_conv)
qed

text \<open>
  A run the number arm collects (a digit, then digits and dots) parses to a
  decimal \<open>m \<cdot> 10^-k\<close> or fails (a second dot).
\<close>

lemma f64_from_str_num_run:
  assumes "is_ascii_digit c" and "list_all is_num_char r" and "f64_from_str (c # r) = Some n"
  shows "\<exists>m k. n = f64_of_decimal m k"
proof -
  let ?s = "c # r"
  have run: "list_all is_num_char ?s" using assms(1,2) by (simp add: is_num_char_def)
  have pd: "parse_decimal False ?s = Some n"
    using assms(3) f64_from_str_plain digit_plain [OF assms(1)] by simp
  have ip: "takeWhile is_ascii_digit ?s \<noteq> []" using assms(1) by simp
  show ?thesis
  proof (cases "CHR ''.'' \<in> set ?s")
    case False
    then have t: "takeWhile is_ascii_digit ?s = ?s" "dropWhile is_ascii_digit ?s = []"
      using num_chars_no_dot [OF run] by simp_all
    have "n = f64_of_decimal (digits_value ?s) 0"
      using pd f64_of_decimal_exp_decimal [of _ 0]
      by (simp add: t parse_decimal_def parse_exponent_def Let_def del: takeWhile.simps dropWhile.simps)
    then show ?thesis by blast
  next
    case True
    obtain fp where d: "dropWhile is_ascii_digit ?s = CHR ''.'' # fp"
      using num_chars_dot [OF run True] by blast
    have fp: "list_all is_num_char fp"
      using run d by (metis list_all_append list.pred_inject(2) takeWhile_dropWhile_id)
    show ?thesis
    proof (cases "CHR ''.'' \<in> set fp")
      case False
      then have t: "takeWhile is_ascii_digit fp = fp" "dropWhile is_ascii_digit fp = []"
        using num_chars_no_dot [OF fp] by simp_all
      have "n = f64_of_decimal (digits_value (takeWhile is_ascii_digit ?s @ fp)) (length fp)"
        using pd d ip unfolding parse_decimal_def Let_def
        by (simp add: t parse_exponent_def f64_of_decimal_exp_decimal del: takeWhile.simps dropWhile.simps)
      then show ?thesis by blast
    next
      case True
      then obtain r2 where "dropWhile is_ascii_digit fp = CHR ''.'' # r2"
        using num_chars_dot [OF fp] by blast
      then have False using pd d ip unfolding parse_decimal_def Let_def
        by (simp add: parse_exponent_def del: takeWhile.simps dropWhile.simps)
      then show ?thesis ..
    qed
  qed
qed

section \<open>Every token is well formed\<close>

lemma f64_of_decimal_wf: "\<not> f64_is_nan (f64_of_decimal n k) \<and> \<not> f64_sign (f64_of_decimal n k)"
proof (cases "n = 0")
  case True
  then show ?thesis by (simp add: f64_of_decimal_def f64_is_nan_def f64_sign_def f64_exp_def f64_frac_def)
next
  case False
  then show ?thesis by (simp add: f64_of_decimal_def f64_round_sign f64_round_not_nan)
qed

lemma lex_step_number_decimal:
  "is_ascii_digit c \<Longrightarrow> f64_from_str (c # takeWhile is_num_char cs) = Some n \<Longrightarrow> \<exists>m k. n = f64_of_decimal m k"
  by (rule f64_from_str_num_run) (auto simp: list_all_iff dest: set_takeWhileD)

lemma lex_step_wf: "fst (lex_step c cs) = Some tk \<Longrightarrow> wf_token tk"
  using ascii_alpha_classes [of c] f64_of_decimal_wf
  by (auto simp: lex_step_def list_all_iff dest: set_takeWhileD lex_step_number_decimal
      split: if_splits)

text \<open>
  C5. Every token the tokenizer emits is well formed (\<open>wf_token\<close>): whatever the
  input, function names are letter runs starting with an ASCII letter, numbers
  are non-negative and never NaN, operators are \<open>+ - * /\<close>, column names
  contain no \<open>]\<close>.
\<close>

theorem tokenize_wf: "list_all wf_token (tokenize s)"
proof -
  have "tk \<in> set (tokenize_chars cs) \<Longrightarrow> wf_token tk" for tk cs
  proof (induction cs rule: tokenize_chars.induct)
    case (2 c cs)
    then show ?case using lex_step_wf [of c cs] by (auto split: option.splits)
  qed simp
  then show ?thesis by (simp add: tokenize_def list_all_iff)
qed

section \<open>Progress of the loop\<close>

lemma if_leI: "a \<le> c \<Longrightarrow> b \<le> c \<Longrightarrow> (if A then a else b) \<le> c"
  by simp

lemma length_lex_step_rest: "length (snd (lex_step c cs)) \<le> length cs"
  unfolding lex_step_def if_distrib [of snd] if_distrib [of length] snd_conv
  by (intro if_leI) simp_all


section \<open>A leading dot\<close>

text \<open>
  C31. A number cannot start with a dot: for any run of digits \<open>ds\<close>, the text
  \<open>.ds\<close> tokenizes as the integer \<open>ds\<close> (the dot is skipped as an unknown
  character), while \<open>str::parse\<close> (and the spec's rule that a digit or a dot
  starts a number) reads it as \<open>0.ds\<close>.
\<close>

theorem tokenize_leading_dot:
  assumes "ds \<noteq> []" and "list_all is_ascii_digit ds"
  shows "tokenize (CHR ''.'' # ds) = [TkNumber (f64_of_decimal (digits_value ds) 0)]
         \<and> f64_from_str (CHR ''.'' # ds) = Some (f64_of_decimal (digits_value ds) (length ds))"
proof -
  obtain c r where ds: "ds = c # r" using assms(1) by (cases ds) auto
  have c: "is_ascii_digit c" and r: "\<forall>x \<in> set r. is_ascii_digit x"
    using assms(2) ds by (simp_all add: list_all_iff)
  have rn: "takeWhile is_num_char r = r" "dropWhile is_num_char r = []"
    using r by (simp_all add: is_num_char_def takeWhile_eq_all_conv dropWhile_eq_Nil_conv)
  have dot: "lex_step CHR ''.'' ds = (None, ds)"
    by (simp add: lex_step_def is_ascii_digit_def is_operator_char_def is_ws_char_def is_ascii_alpha_def)
  have num: "lex_step c r = (Some (TkNumber (f64_of_decimal (digits_value ds) 0)), [])"
    using c rn parse_decimal_digits [OF assms] f64_from_str_plain digit_plain [OF c] ds
    by (simp add: lex_step_def del: takeWhile_eq_all_conv dropWhile_eq_Nil_conv)
  have "tokenize (CHR ''.'' # ds) = [TkNumber (f64_of_decimal (digits_value ds) 0)]"
    using dot num ds by (simp add: tokenize_def)
  moreover have "f64_from_str (CHR ''.'' # ds) = Some (f64_of_decimal (digits_value ds) (length ds))"
  proof -
    have t: "takeWhile is_ascii_digit ds = ds" "dropWhile is_ascii_digit ds = []"
      using assms(2) by (simp_all add: list_all_iff takeWhile_eq_all_conv dropWhile_eq_Nil_conv)
    have "parse_decimal False (CHR ''.'' # ds) = Some (f64_of_decimal (digits_value ds) (length ds))"
      using assms(1) f64_of_decimal_exp_decimal
      by (simp add: t parse_decimal_def parse_exponent_def Let_def is_ascii_digit_def
          del: takeWhile_eq_all_conv dropWhile_eq_Nil_conv)
    then show ?thesis by (simp add: f64_from_str_plain ascii_lower_def)
  qed
  ultimately show ?thesis ..
qed

section \<open>Printing and reading back\<close>
lemma no_adjacent_functions_tl: "no_adjacent_functions (t # ts) \<Longrightarrow> no_adjacent_functions ts"
  by (cases t; cases ts) (auto elim: no_adjacent_functions.elims)

lemma operator_char_cases: "is_operator_char c \<Longrightarrow> c \<in> {CHR ''+'', CHR ''-'', CHR ''*'', CHR ''/''}"
  by (simp add: is_operator_char_def)

lemma token_text_head:
  assumes "wf_token t" "token_text t = Some w" "\<not> is_function_token t"
  shows "w \<noteq> [] \<and> \<not> is_alphabetic (hd w)"
  using assms operator_char_cases
  by (cases t) (auto simp: dax_eval)

lemma tokenize_chars_token_text:
  assumes "wf_token t" and "token_text t = Some w"
    and "\<not> is_function_token t \<or> rest = [] \<or> \<not> is_alphabetic (hd rest)"
  shows "tokenize_chars (w @ rest) = t # tokenize_chars rest"
proof (cases t)
  case (TkFunction name)
  then have w: "w = name" using assms(2) by simp
  obtain x xs where n: "name = x # xs" using assms(1) TkFunction by (cases name) auto
  have "tokenize_chars (x # xs @ rest) = TkFunction (x # xs) # tokenize_chars rest"
    by (rule tokenize_chars_function) (use assms TkFunction n in \<open>auto simp: list_all_iff\<close>)
  then show ?thesis using w n TkFunction by simp
next
  case (TkColumn name)
  then have w: "w = CHR ''['' # name @ '']''" using assms(2) by simp
  then show ?thesis using assms(1) TkColumn tokenize_chars_column [of name rest] by simp
next
  case (TkOperator c)
  then show ?thesis using assms operator_char_cases [of c] by (auto simp: dax_eval)
qed (use assms in \<open>auto simp: dax_eval\<close>)

text \<open>
  C6. Round trip: printing a list of well-formed, number-free tokens in which no
  two function names are adjacent (they would merge into one name) and
  tokenizing the text gives back the list.
\<close>

theorem tokenize_print_roundtrip:
  "list_all wf_token ts \<Longrightarrow> no_adjacent_functions ts \<Longrightarrow> print_tokens ts = Some s
   \<Longrightarrow> tokenize s = ts"
proof (induction ts arbitrary: s)
  case Nil
  then show ?case by (simp add: tokenize_def)
next
  case (Cons t ts)
  from Cons.prems(3) obtain w s' where w: "token_text t = Some w" and s': "print_tokens ts = Some s'"
    and s: "s = w @ s'" by (auto split: option.splits)
  have ih: "tokenize s' = ts"
    using Cons.IH [OF _ no_adjacent_functions_tl [OF Cons.prems(2)] s'] Cons.prems(1) by simp
  have "\<not> is_function_token t \<or> s' = [] \<or> \<not> is_alphabetic (hd s')"
  proof (cases ts)
    case Nil
    then show ?thesis using s' by simp
  next
    case (Cons t2 ts2)
    show ?thesis
    proof (cases "is_function_token t")
      case True
      then have "\<not> is_function_token t2"
        using Cons.prems(2) \<open>ts = t2 # ts2\<close> by (cases t; cases t2) auto
      moreover obtain w2 s2 where "token_text t2 = Some w2" "s' = w2 @ s2"
        using s' \<open>ts = t2 # ts2\<close> by (auto split: option.splits)
      moreover have "wf_token t2" using Cons.prems(1) \<open>ts = t2 # ts2\<close> by simp
      ultimately show ?thesis using token_text_head [of t2 w2] by auto
    qed simp
  qed
  then show ?case
    using tokenize_chars_token_text [OF _ w] Cons.prems(1) ih s by (simp add: tokenize_def)
qed

theorem tokenize_print_roundtrip_witness:
  "list_all wf_token [TkFunction ''SUM'', TkParenOpen, TkColumn ''Sales'', TkParenClose]
   \<and> no_adjacent_functions [TkFunction ''SUM'', TkParenOpen, TkColumn ''Sales'', TkParenClose]
   \<and> print_tokens [TkFunction ''SUM'', TkParenOpen, TkColumn ''Sales'', TkParenClose]
       = Some ''SUM([Sales])''
   \<and> tokenize ''SUM([Sales])'' = [TkFunction ''SUM'', TkParenOpen, TkColumn ''Sales'', TkParenClose]"
proof -
  have a: "list_all wf_token [TkFunction ''SUM'', TkParenOpen, TkColumn ''Sales'', TkParenClose]"
    and b: "no_adjacent_functions [TkFunction ''SUM'', TkParenOpen, TkColumn ''Sales'', TkParenClose]"
    and c: "print_tokens [TkFunction ''SUM'', TkParenOpen, TkColumn ''Sales'', TkParenClose]
            = Some ''SUM([Sales])''"
    by (simp_all add: dax_eval)
  show ?thesis using tokenize_print_roundtrip [OF a b c] a b c by simp
qed

theorem tokenize_leading_dot_witness:
  "''5'' \<noteq> [] \<and> list_all is_ascii_digit ''5''
   \<and> tokenize ''.5'' = [TkNumber (f64_of_decimal 5 0)] \<and> f64_from_str ''.5'' = Some (f64_of_decimal 5 1)"
proof -
  have a: "''5'' \<noteq> []" "list_all is_ascii_digit ''5''" by (simp_all add: is_ascii_digit_def)
  show ?thesis using tokenize_leading_dot [OF a] a by (simp add: digits_value_def)
qed

end
