(* ===== verification/Dax_Evaluator.thy ===== *)
theory Dax_Evaluator
  imports Dax_Table Dax_Tokenizer
begin

text \<open>
  \<open>Table::evaluate_dax\<close> of \<open>src/src/table.rs\<close> and its result type
  \<open>DaxResult\<close>. The Rust code tokenizes the expression and walks one iterator
  over the tokens: the outer \<open>while let\<close> skips to the first \<open>Function\<close> token;
  for one of the five supported names an inner \<open>while let\<close> on the same
  iterator skips to the first \<open>Column\<close> token and returns the aggregate's
  result; if the inner loop exhausts the iterator the outer loop ends too and the
  generic error is returned; any other name returns \<open>Unsupported function\<close>
  at once. \<open>scan_column\<close> is the inner loop (returning what is left of the
  iterator), \<open>eval_tokens\<close> the outer one.
\<close>

datatype DaxResult = RNumber f64 | RText string | RBoolean bool | RError string

definition supported_functions :: "string list" where
  "supported_functions = [''SUM'', ''AVERAGE'', ''MIN'', ''MAX'', ''DISTINCTCOUNT'']"

fun scan_column :: "DaxToken list \<Rightarrow> (string \<times> DaxToken list) option" where
  "scan_column [] = None"
| "scan_column (TkColumn col_name # rest) = Some (col_name, rest)"
| "scan_column (_ # rest) = scan_column rest"

text \<open>
  The \<open>match self.f(&col_name)\<close> of each arm: the number, or the error naming
  the function and the column.
\<close>

definition aggregate_result :: "string \<Rightarrow> string \<Rightarrow> f64 option \<Rightarrow> DaxResult" where
  "aggregate_result fname col_name r =
     (case r of
        Some x \<Rightarrow> RNumber x
      | None \<Rightarrow> RError (''Could not calculate '' @ fname @ '' for column '' @ col_name))"

definition run_aggregate :: "Table \<Rightarrow> string \<Rightarrow> string \<Rightarrow> DaxResult" where
  "run_aggregate t name col_name =
     (if name = ''SUM'' then aggregate_result name col_name (table_sum t col_name)
      else if name = ''AVERAGE'' then aggregate_result name col_name (table_average t col_name)
      else if name = ''MIN'' then aggregate_result name col_name (table_min t col_name)
      else if name = ''MAX'' then aggregate_result name col_name (table_max t col_name)
      else aggregate_result name col_name
             (map_option f64_of_nat (table_distinctcount t col_name)))"

definition invalid_expression :: DaxResult where
  "invalid_expression = RError ''Invalid or unsupported DAX expression''"

fun eval_tokens :: "Table \<Rightarrow> DaxToken list \<Rightarrow> DaxResult" where
  "eval_tokens t [] = invalid_expression"
| "eval_tokens t (TkFunction name # rest) =
     (if name \<in> set supported_functions then
        (case scan_column rest of
           Some (col_name, _) \<Rightarrow> run_aggregate t name col_name
         | None \<Rightarrow> eval_tokens t [])
      else RError (''Unsupported function: '' @ name))"
| "eval_tokens t (_ # rest) = eval_tokens t rest"

definition evaluate_dax :: "Table \<Rightarrow> string \<Rightarrow> DaxResult" where
  "evaluate_dax t expression = eval_tokens t (tokenize expression)"

text \<open>
  \<open>Table::evaluate_divide\<close> (private, never called by \<open>evaluate_dax\<close>):
  each argument token is turned back into text with \<open>to_string\<close> (the token's
  \<open>Display\<close>) and evaluated as an expression of its own.
\<close>

definition evaluate_divide :: "(f64 \<Rightarrow> string) \<Rightarrow> Table \<Rightarrow> DaxToken list \<Rightarrow> string + DaxResult" where
  "evaluate_divide show_f64 t args =
     (if length args < 2 \<or> 3 < length args then Inl ''DIVIDE requires 2 or 3 arguments''
      else case evaluate_dax t (token_display show_f64 (args ! 0)) of
        RNumber numerator \<Rightarrow>
          (case evaluate_dax t (token_display show_f64 (args ! 1)) of
             RNumber denominator \<Rightarrow>
               if f64_eq denominator f64_zero then
                 (if length args = 3 then
                    (case evaluate_dax t (token_display show_f64 (args ! 2)) of
                       RNumber n \<Rightarrow> Inr (RNumber n)
                     | _ \<Rightarrow> Inl ''Alternate result must be a number'')
                  else Inl ''Division by zero'')
               else Inr (RNumber (f64_div numerator denominator))
           | _ \<Rightarrow> Inl ''Denominator must be a number'')
      | _ \<Rightarrow> Inl ''Numerator must be a number'')"

section \<open>The contract: the first function token decides\<close>

text \<open>
  The evaluator's specification as the spec states it: find the first
  \<open>Function\<close> token; an unsupported name is an error; a supported one is
  applied to the first \<open>Column\<close> token after it, if any; nothing else of the
  token stream matters.
\<close>
fun first_function :: "DaxToken list \<Rightarrow> (string \<times> DaxToken list) option" where
  "first_function [] = None"
| "first_function (TkFunction name # rest) = Some (name, rest)"
| "first_function (_ # rest) = first_function rest"

definition column_names :: "DaxToken list \<Rightarrow> string list" where
  "column_names toks = [c. TkColumn c \<leftarrow> toks]"

definition eval_spec :: "Table \<Rightarrow> DaxToken list \<Rightarrow> DaxResult" where
  "eval_spec t toks =
     (case first_function toks of
        None \<Rightarrow> invalid_expression
      | Some (name, rest) \<Rightarrow>
          if name \<notin> set supported_functions then RError (''Unsupported function: '' @ name)
          else (case column_names rest of
                  [] \<Rightarrow> invalid_expression
                | c # _ \<Rightarrow> run_aggregate t name c))"

text \<open>The example table of \<open>src/src/main.rs\<close> and the spec (Sales = 100, 150, 200).\<close>

definition example_sales :: Table where
  "example_sales = add_column table_new ''Sales''
     [Number (f64_of_nat 100), Number (f64_of_nat 150), Number (f64_of_nat 200)]"

lemmas evaluator_eval [dax_eval] =
  supported_functions_def aggregate_result_def run_aggregate_def invalid_expression_def
  evaluate_dax_def

section \<open>Properties of the evaluator\<close>
lemma scan_column_first:
  "map_option fst (scan_column toks) = (case column_names toks of [] \<Rightarrow> None | c # _ \<Rightarrow> Some c)"
  by (induction toks rule: scan_column.induct) (simp_all add: column_names_def)

lemma eval_tokens_spec: "eval_tokens t toks = eval_spec t toks"
proof (induction t toks rule: eval_tokens.induct)
  case (2 t name rest)
  show ?case
  proof (cases "scan_column rest")
    case None
    then have "column_names rest = []"
      using scan_column_first [of rest] by (simp split: list.splits)
    with None show ?thesis by (simp add: eval_spec_def)
  next
    case (Some p)
    then obtain c r where p: "scan_column rest = Some (c, r)" by (cases p) auto
    then obtain cs where "column_names rest = c # cs"
      using scan_column_first [of rest] by (simp split: list.splits)
    with p show ?thesis by (simp add: eval_spec_def)
  qed
qed (simp_all add: eval_spec_def)

text \<open>
  C1. \<open>evaluate_dax\<close> implements its contract: on every expression it returns
  what \<open>eval_spec\<close> prescribes for the token stream (first function token
  decides; unsupported name is an error; otherwise the aggregate of the first
  later column, or the generic error when there is none).
\<close>

theorem evaluate_dax_refines_spec: "evaluate_dax t e = eval_spec t (tokenize e)"
  by (simp add: evaluate_dax_def eval_tokens_spec)

lemma supported_function_name:
  "f \<in> set supported_functions \<Longrightarrow> f \<noteq> [] \<and> is_ascii_alpha (hd f) \<and> (\<forall>y \<in> set f. is_alphabetic y)"
  by (auto simp: supported_functions_def dax_eval)

text \<open>
  C2. Single dispatch: an expression that starts with a supported function applied
  to a column \<open>F([c]\<close> evaluates to that aggregate whatever follows it; the
  rest of the expression (an operator, a second call) is never looked at.
\<close>

theorem evaluate_dax_single_dispatch:
  assumes "f \<in> set supported_functions" and "CHR '']'' \<notin> set c"
  shows "evaluate_dax t (f @ ''(['' @ c @ '']'' @ rest) = run_aggregate t f c"
  using tokenize_call [OF _ _ _ assms(2), of f rest] supported_function_name [OF assms(1)] assms(1)
  by (simp add: evaluate_dax_def)

lemma run_aggregate_missing:
  "get_column t c = None \<Longrightarrow>
   run_aggregate t f c = RError (''Could not calculate '' @ f @ '' for column '' @ c)"
  by (simp add: run_aggregate_def aggregate_result_def table_sum_def table_average_def
      table_min_def table_max_def table_distinctcount_def)

text \<open>
  C3. A supported function applied to a column the table does not have evaluates
  to the error \<open>Could not calculate F for column c\<close>.
\<close>

theorem evaluate_dax_missing_column:
  assumes "f \<in> set supported_functions" and "CHR '']'' \<notin> set c" and "get_column t c = None"
  shows "evaluate_dax t (f @ ''(['' @ c @ '']'' @ rest)
         = RError (''Could not calculate '' @ f @ '' for column '' @ c)"
  using tokenize_call [OF _ _ _ assms(2), of f rest] supported_function_name [OF assms(1)]
    assms(1) run_aggregate_missing [OF assms(3)]
  by (simp add: evaluate_dax_def)

text \<open>
  C4. An expression that starts with a name that is not one of the five supported
  functions evaluates to \<open>Unsupported function: name\<close>, before any column is
  looked up.
\<close>

theorem evaluate_dax_unsupported:
  assumes "is_ascii_alpha x" and "\<forall>y \<in> set xs. is_alphabetic y"
    and "x # xs \<notin> set supported_functions" and "rest = [] \<or> \<not> is_alphabetic (hd rest)"
  shows "evaluate_dax t (x # xs @ rest) = RError (''Unsupported function: '' @ x # xs)"
  using tokenize_chars_function [OF assms(1,2,4)] assms(3)
  by (simp add: evaluate_dax_def tokenize_def)

section \<open>Column tokens come from brackets\<close>

lemma lex_step_column: "fst (lex_step c cs) = Some (TkColumn n) \<Longrightarrow> c = CHR ''[''"
  unfolding lex_step_def by (simp split: if_split_asm)
lemma if_subsetI: "a \<subseteq> c \<Longrightarrow> b \<subseteq> c \<Longrightarrow> (if A then a else b) \<subseteq> c"
  by simp
lemma lex_step_rest: "set (snd (lex_step c cs)) \<subseteq> set cs"
  unfolding lex_step_def if_distrib [of snd] if_distrib [of set] snd_conv
  by (intro if_subsetI) (auto dest: set_dropWhileD in_set_dropD)
lemma tokenize_chars_column_bracket: "TkColumn n \<in> set (tokenize_chars s) \<Longrightarrow> CHR ''['' \<in> set s"
proof (induction s rule: tokenize_chars.induct)
  case (2 c cs)
  show ?case
  proof (cases "fst (lex_step c cs) = Some (TkColumn n)")
    case True
    then show ?thesis using lex_step_column by auto
  next
    case False
    then have "TkColumn n \<in> set (tokenize_chars (snd (lex_step c cs)))"
      using "2.prems" by (auto split: option.splits)
    then show ?thesis using "2.IH" lex_step_rest by auto
  qed
qed simp

lemma column_names_Nil: "(\<forall>n. TkColumn n \<notin> set toks) \<Longrightarrow> column_names toks = []"
  by (induction toks) (auto simp: column_names_def split: DaxToken.splits)

lemma first_function_rest: "first_function toks = Some (name, rest) \<Longrightarrow> set rest \<subseteq> set toks"
  by (induction toks rule: first_function.induct) auto

lemma eval_spec_no_column:
  assumes "\<forall>n. TkColumn n \<notin> set toks"
  shows "\<exists>m. eval_spec t toks = RError m"
proof (cases "first_function toks")
  case (Some p)
  then obtain name rest where p: "first_function toks = Some (name, rest)" by (cases p) auto
  then have "column_names rest = []"
    using first_function_rest [OF p] assms by (intro column_names_Nil) blast
  then show ?thesis using p by (simp add: eval_spec_def invalid_expression_def)
qed (simp add: eval_spec_def invalid_expression_def)

lemma tokenize_no_column: "CHR ''['' \<notin> set e \<Longrightarrow> \<forall>n. TkColumn n \<notin> set (tokenize e)"
  using tokenize_chars_column_bracket by (auto simp: tokenize_def)

text \<open>
  C25. An expression without a \<open>[\<close> always evaluates to an error: only a
  bracketed column name can give an aggregate a column.
\<close>

theorem evaluate_dax_needs_column:
  assumes "CHR ''['' \<notin> set e"
  shows "\<exists>m. evaluate_dax t e = RError m"
  using eval_spec_no_column [OF tokenize_no_column [OF assms]]
  by (simp add: evaluate_dax_def eval_tokens_spec)

text \<open>
  C26. \<open>evaluate_divide\<close> can never divide two columns: it re-evaluates the
  \<open>Display\<close> text of its first argument, which for a \<open>Column\<close> token is the
  bare name; a text without \<open>[\<close> never evaluates to a number, so the result is
  \<open>Numerator must be a number\<close>. (Printing the brackets would not help: a
  lone \<open>[c]\<close> has no function token and evaluates to the generic error.)
\<close>

theorem evaluate_divide_column_args:
  assumes "2 \<le> length args" and "length args \<le> 3"
    and "args ! 0 = TkColumn c" and "CHR ''['' \<notin> set c"
  shows "evaluate_divide show_f64 t args = Inl ''Numerator must be a number''"
proof -
  obtain m where "evaluate_dax t c = RError m"
    using eval_spec_no_column [OF tokenize_no_column [OF assms(4)]]
    by (auto simp: evaluate_dax_def eval_tokens_spec)
  then show ?thesis using assms by (simp add: evaluate_divide_def)
qed


section \<open>Witnesses\<close>

theorem evaluate_dax_single_dispatch_witness:
  "''SUM'' \<in> set supported_functions \<and> CHR '']'' \<notin> set ''Sales''
   \<and> evaluate_dax example_sales ''SUM([Sales]) / SUM([Quantity])'' = RNumber (f64_of_nat 450)"
proof -
  have f: "''SUM'' \<in> set supported_functions" by (simp add: supported_functions_def)
  have c: "CHR '']'' \<notin> set ''Sales''" by simp
  have "evaluate_dax example_sales ''SUM([Sales]) / SUM([Quantity])''
        = run_aggregate example_sales ''SUM'' ''Sales''"
    using evaluate_dax_single_dispatch [OF f c, of example_sales "'') / SUM([Quantity])''"] by simp
  also have "\<dots> = RNumber (f64_of_nat 450)"
    by (simp add: dax_eval example_sales_def Let_def cong: let_weak_cong)
  finally show ?thesis using f c by simp
qed

theorem evaluate_dax_missing_column_witness:
  "''AVERAGE'' \<in> set supported_functions \<and> CHR '']'' \<notin> set ''Quantity''
   \<and> get_column table_new ''Quantity'' = None
   \<and> evaluate_dax table_new ''AVERAGE([Quantity])''
       = RError ''Could not calculate AVERAGE for column Quantity''"
proof -
  have f: "''AVERAGE'' \<in> set supported_functions" by (simp add: supported_functions_def)
  have c: "CHR '']'' \<notin> set ''Quantity''" by simp
  have g: "get_column table_new ''Quantity'' = None" by (simp add: dax_eval)
  show ?thesis using evaluate_dax_missing_column [OF f c g, of "'')''"] f c g by simp
qed

theorem evaluate_dax_unsupported_witness:
  "is_ascii_alpha CHR ''I'' \<and> list_all is_alphabetic ''NVALID''
   \<and> ''INVALID'' \<notin> set supported_functions \<and> \<not> is_alphabetic (hd ''([Sales])'')
   \<and> evaluate_dax example_sales ''INVALID([Sales])'' = RError ''Unsupported function: INVALID''"
proof -
  have a: "is_ascii_alpha CHR ''I''" and b: "\<forall>y \<in> set ''NVALID''. is_alphabetic y"
    and n: "CHR ''I'' # ''NVALID'' \<notin> set supported_functions"
    and r: "''([Sales])'' = [] \<or> \<not> is_alphabetic (hd ''([Sales])'')"
    by (simp_all add: dax_eval)
  show ?thesis using evaluate_dax_unsupported [OF a b n r, of example_sales] a b n r
    by (simp add: list_all_iff)
qed

theorem evaluate_dax_needs_column_witness:
  "CHR ''['' \<notin> set ''SUM(Sales)'' \<and> (\<exists>m. evaluate_dax example_sales ''SUM(Sales)'' = RError m)"
proof -
  have a: "CHR ''['' \<notin> set ''SUM(Sales)''" by simp
  show ?thesis using evaluate_dax_needs_column [OF a, of example_sales] a by blast
qed

theorem evaluate_divide_column_args_witness:
  "2 \<le> length [TkColumn ''Sales'', TkColumn ''Sales''] \<and> length [TkColumn ''Sales'', TkColumn ''Sales''] \<le> 3
   \<and> [TkColumn ''Sales'', TkColumn ''Sales''] ! 0 = TkColumn ''Sales'' \<and> CHR ''['' \<notin> set ''Sales''
   \<and> evaluate_divide (\<lambda>_. ''0'') example_sales [TkColumn ''Sales'', TkColumn ''Sales'']
       = Inl ''Numerator must be a number''"
proof -
  have a: "2 \<le> length [TkColumn ''Sales'', TkColumn ''Sales'']"
    "length [TkColumn ''Sales'', TkColumn ''Sales''] \<le> 3"
    "[TkColumn ''Sales'', TkColumn ''Sales''] ! 0 = TkColumn ''Sales''" "CHR ''['' \<notin> set ''Sales''"
    by simp_all
  show ?thesis using evaluate_divide_column_args [OF a, of "\<lambda>_. ''0''" example_sales] a by simp
qed

end
