(* ===== verification/Dax_Macro.thy ===== *)
theory Dax_Macro
  imports Dax_Table Dax_Tokenizer
begin

text \<open>
  The procedural macros of \<open>src/dax-macro/src/lib.rs\<close> and their helpers in
  \<open>src/dax-macro-impl/src/lib.rs\<close>. \<open>table!\<close> parses its input with
  \<open>TableData::parse\<close> (a loop over \<open>"name" => [e, ...]\<close> entries separated by
  commas, the value list parsed by \<open>parse_terminated\<close>) and expands to
  \<open>Table::new()\<close> followed by one \<open>add_column\<close> per entry with the values
  converted by \<open>Value::from\<close>. The input is modelled as a token tree whose
  expressions are the literals \<open>Value::from\<close> accepts (\<open>f64\<close>, \<open>&str\<close>,
  \<open>bool\<close>); a parse failure is the compile error's message. The expansion is
  modelled by the table its code builds. \<open>parse_dax!\<close> expands to the tokens of
  the runtime \<open>tokenize\<close>, re-emitted as source text by \<open>ToTokens\<close>.
\<close>

section \<open>The macro input\<close>

datatype MacroLit = LitFloat f64 | LitStr string | LitBool bool

datatype MacroTok =
    MStr string
  | MArrow
  | MComma
  | MLit MacroLit
  | MBracket "MacroTok list"

text \<open>\<open>Punctuated::parse_terminated(Expr::parse, Token![,])\<close>: expressions
  separated by commas, a trailing comma allowed.\<close>

fun parse_terminated :: "MacroTok list \<Rightarrow> string + MacroLit list" where
  "parse_terminated [] = Inr []"
| "parse_terminated (t # ts) =
     (case t of
        MLit l \<Rightarrow>
          (case ts of
             [] \<Rightarrow> Inr [l]
           | c # rest \<Rightarrow>
               if c = MComma then
                 (case parse_terminated rest of Inl e \<Rightarrow> Inl e | Inr ls \<Rightarrow> Inr (l # ls))
               else Inl ''expected `,`'')
      | _ \<Rightarrow> Inl ''expected an expression'')"

text \<open>One entry \<open>"name" => [values]\<close>: a string literal, \<open>=>\<close> and a bracketed
  group, three tokens.\<close>

definition parse_entry :: "MacroTok list \<Rightarrow> string + (string \<times> MacroLit list)" where
  "parse_entry input =
     (case input of
        MStr name # r1 \<Rightarrow>
          (case r1 of
             MArrow # r2 \<Rightarrow>
               (case r2 of
                  MBracket content # _ \<Rightarrow>
                    (case parse_terminated content of Inl e \<Rightarrow> Inl e | Inr values \<Rightarrow> Inr (name, values))
                | _ \<Rightarrow> Inl ''expected square brackets'')
           | _ \<Rightarrow> Inl ''expected `=>`'')
      | _ \<Rightarrow> Inl ''expected string literal'')"

text \<open>\<open>TableData::parse\<close>: the \<open>while !input.is_empty()\<close> loop; after an
  entry the input is either empty or continues with a comma.\<close>

function parse_table_data :: "MacroTok list \<Rightarrow> string + (string \<times> MacroLit list) list" where
  "parse_table_data [] = Inr []"
| "parse_table_data (t # ts) =
     (case parse_entry (t # ts) of
        Inl e \<Rightarrow> Inl e
      | Inr col \<Rightarrow>
          (case drop 2 ts of
             [] \<Rightarrow> Inr [col]
           | c # rest \<Rightarrow>
               if c = MComma then
                 (case parse_table_data rest of Inl e \<Rightarrow> Inl e | Inr cols \<Rightarrow> Inr (col # cols))
               else Inl ''expected `,`''))"
  by pat_completeness auto
termination
  by (relation "measure length") (auto dest!: arg_cong [where f = length])

section \<open>The expansion\<close>

text \<open>\<open>Value::from\<close> on a literal of the macro input.\<close>

fun value_from_lit :: "MacroLit \<Rightarrow> Value" where
  "value_from_lit (LitFloat n) = value_from_f64 n"
| "value_from_lit (LitStr s) = value_from_str s"
| "value_from_lit (LitBool b) = value_from_bool b"

text \<open>\<open>generate_table_tokens\<close>: the block \<open>let mut table = Table::new();
  table.add_column(name.to_string(), vec![Value::from(v), ...]); ... table\<close>.\<close>

definition generate_table_tokens :: "(string \<times> MacroLit list) list \<Rightarrow> Table" where
  "generate_table_tokens cols =
     foldl (\<lambda>t col. add_column t (fst col) (map value_from_lit (snd col))) table_new cols"

definition table_macro :: "MacroTok list \<Rightarrow> string + Table" where
  "table_macro input =
     (case parse_table_data input of Inl e \<Rightarrow> Inl e | Inr cols \<Rightarrow> Inr (generate_table_tokens cols))"

text \<open>\<open>parse_dax!\<close>: the token vector of the runtime tokenizer.\<close>

definition parse_dax_macro :: "string \<Rightarrow> DaxToken list" where
  "parse_dax_macro dax_str = tokenize dax_str"

text \<open>
  \<open>ToTokens for DaxToken\<close>: the source text each token is re-emitted as, with
  the \<open>{:?}\<close> formatting of \<open>f64\<close> left as a parameter. Names are pasted
  between quotes unescaped.
\<close>

fun token_source :: "(f64 \<Rightarrow> string) \<Rightarrow> DaxToken \<Rightarrow> string" where
  "token_source dbg (TkFunction name) = ''DaxToken::Function(\"'' @ name @ ''\".to_string())''"
| "token_source dbg (TkNumber n) = ''DaxToken::Number('' @ dbg n @ '')''"
| "token_source dbg (TkOperator op) = ''DaxToken::Operator('' @ [CHR 0x27, op, CHR 0x27] @ '')''"
| "token_source dbg (TkColumn name) = ''DaxToken::Column(\"'' @ name @ ''\".to_string())''"
| "token_source dbg TkComma = ''DaxToken::Comma''"
| "token_source dbg TkParenOpen = ''DaxToken::ParenOpen''"
| "token_source dbg TkParenClose = ''DaxToken::ParenClose''"
| "token_source dbg TkWhitespace = ''DaxToken::Whitespace''"

text \<open>The macro input a list of columns is written as (for the round trip).\<close>

definition render_values :: "MacroLit list \<Rightarrow> MacroTok list" where
  "render_values ls = concat (map (\<lambda>l. [MLit l, MComma]) ls)"

definition render_table_data :: "(string \<times> MacroLit list) list \<Rightarrow> MacroTok list" where
  "render_table_data cols =
     concat (map (\<lambda>c. [MStr (fst c), MArrow, MBracket (render_values (snd c)), MComma]) cols)"

lemmas macro_eval [dax_eval] =
  parse_entry_def generate_table_tokens_def table_macro_def parse_dax_macro_def value_from_f64_def
  value_from_str_def value_from_bool_def

section \<open>Properties of the macros\<close>

lemma parse_terminated_render: "parse_terminated (render_values ls) = Inr ls"
  by (induction ls) (simp_all add: render_values_def)

lemma parse_render_table_data: "parse_table_data (render_table_data cols) = Inr cols"
proof (induction cols)
  case (Cons c cs)
  then show ?case
    by (cases c) (simp add: render_table_data_def parse_entry_def parse_terminated_render)
qed (simp add: render_table_data_def)

lemma butlast_render_table_data:
  "cs \<noteq> [] \<Longrightarrow> butlast (render_table_data (c # cs))
     = [MStr (fst c), MArrow, MBracket (render_values (snd c)), MComma] @ butlast (render_table_data cs)"
  by (cases cs) (simp_all add: render_table_data_def butlast_append)

text \<open>
  C23. \<open>TableData::parse\<close> reads back what a list of columns is written as,
  \<open>"name" => [v, ...]\<close> per column separated by commas, with or without a
  trailing comma after the last entry.
\<close>

theorem parse_table_data_roundtrip:
  "parse_table_data (render_table_data cols) = Inr cols
   \<and> parse_table_data (butlast (render_table_data cols)) = Inr cols"
proof -
  have "parse_table_data (butlast (render_table_data cols)) = Inr cols"
  proof (induction cols)
    case (Cons c cs)
    show ?case
    proof (cases "cs = []")
      case True
      then show ?thesis
        by (cases c) (simp add: render_table_data_def parse_entry_def parse_terminated_render)
    next
      case False
      obtain t ts where "butlast (render_table_data cs) = t # ts \<or> butlast (render_table_data cs) = []"
        by (cases "butlast (render_table_data cs)") auto
      then show ?thesis using Cons.IH False
        by (cases c) (auto simp: butlast_render_table_data parse_entry_def parse_terminated_render)
    qed
  qed (simp add: render_table_data_def)
  then show ?thesis by (simp add: parse_render_table_data)
qed
lemma get_column_generate_table_tokens:
  "get_column (generate_table_tokens cols) n = map_option (map value_from_lit) (map_of (rev cols) n)"
proof -
  have "map_of (rev (map (\<lambda>c. (fst c, map value_from_lit (snd c))) cols)) n
        = map_option (map value_from_lit) (map_of (rev cols) n)"
    by (induction cols) (simp_all add: map_add_def split: option.splits)
  then show ?thesis
    using columns_foldl_add_column [of fst "\<lambda>c. map value_from_lit (snd c)" table_new cols]
    by (simp add: generate_table_tokens_def get_column_def table_new_def)
qed

text \<open>
  C22. \<open>table!\<close> builds its table through the \<open>add_column\<close> contract: the
  table it expands to has, under each name, the \<open>Value::from\<close> of the values of
  the last entry with that name, and no other column.
\<close>

theorem table_macro_columns:
  "\<exists>T. table_macro (render_table_data cols) = Inr T
       \<and> (\<forall>n. get_column T n = map_option (map value_from_lit) (map_of (rev cols) n))"
  by (simp add: table_macro_def parse_render_table_data get_column_generate_table_tokens)

end
