(* ===== verification/Dax_Main.thy ===== *)
theory Dax_Main
  imports Dax_Evaluator Dax_Macro
begin

text \<open>
  The binary \<open>src/src/main.rs\<close>: \<open>DaxValue\<close>, \<open>eval_dax\<close>, which turns a
  \<open>DaxResult\<close> into a \<open>Result\<close>, and \<open>main\<close>, which builds a table with
  \<open>table!\<close> and evaluates two expressions on it. The printing is not modelled;
  \<open>main_run\<close> returns what is printed, the expansion's compile error if any.
\<close>

datatype DaxValue = DNumber f64 | DText string | DBoolean bool

definition eval_dax :: "Table \<Rightarrow> string \<Rightarrow> string + DaxValue" where
  "eval_dax table dax_expr =
     (case evaluate_dax table dax_expr of
        RNumber n \<Rightarrow> Inr (DNumber n)
      | RText s \<Rightarrow> Inr (DText s)
      | RBoolean b \<Rightarrow> Inr (DBoolean b)
      | RError e \<Rightarrow> Inl e)"

text \<open>The input of \<open>table!\<close> in \<open>main\<close>.\<close>

definition main_table_input :: "MacroTok list" where
  "main_table_input =
     [MStr ''Sales'', MArrow,
      MBracket [MLit (LitFloat (f64_of_nat 100)), MComma, MLit (LitFloat (f64_of_nat 150)), MComma,
                MLit (LitFloat (f64_of_nat 200))], MComma,
      MStr ''Discount'', MArrow,
      MBracket [MLit (LitFloat f64_zero), MComma, MLit (LitFloat f64_zero), MComma,
                MLit (LitFloat f64_zero)], MComma,
      MStr ''Quantity'', MArrow,
      MBracket [MLit (LitFloat (f64_of_nat 10)), MComma, MLit (LitFloat (f64_of_nat 15)), MComma,
                MLit (LitFloat (f64_of_nat 15))], MComma,
      MStr ''Product'', MArrow,
      MBracket [MLit (LitStr ''Apple''), MComma, MLit (LitStr ''Banana''), MComma,
                MLit (LitStr ''Orange'')]]"

definition main_run :: "string + (string + DaxValue) \<times> (string + DaxValue)" where
  "main_run =
     (case table_macro main_table_input of
        Inl e \<Rightarrow> Inl e
      | Inr table \<Rightarrow> Inr (eval_dax table ''SUM([Quantity])'', eval_dax table ''AVERAGE([Quantity]''))"

section \<open>Properties\<close>

lemma eval_spec_result: "(\<exists>n. eval_spec t toks = RNumber n) \<or> (\<exists>m. eval_spec t toks = RError m)"
  by (auto simp: eval_spec_def run_aggregate_def aggregate_result_def invalid_expression_def
      split: option.splits list.splits prod.splits)

text \<open>
  C24. \<open>eval_dax\<close> only ever returns \<open>Ok(DaxValue::Number(..))\<close> or an
  error message: the evaluator produces no text or boolean results.
\<close>

theorem eval_dax_number_or_error:
  "(\<exists>n. eval_dax t e = Inr (DNumber n)) \<or> (\<exists>m. eval_dax t e = Inl m)"
  using eval_spec_result [of t "tokenize e"]
  by (auto simp: eval_dax_def evaluate_dax_def eval_tokens_spec)

end
