(* ===== verification/Dax_Error.thy ===== *)
theory Dax_Error
  imports Dax_Prelude
begin

text \<open>
  \<open>enum DaxError\<close> of \<open>src/src/error.rs\<close>, its \<open>Display\<close> and the
  \<open>From<std::io::Error>\<close> conversion that the \<open>?\<close> operator of
  \<open>read_csv\<close> applies. A \<open>std::io::Error\<close> is represented by its
  \<open>Display\<close> text, the only thing the program does with it.
\<close>

type_synonym io_error = string

datatype DaxError = ParseError string | EvaluationError string | IoError io_error

fun dax_error_display :: "DaxError \<Rightarrow> string" where
  "dax_error_display (ParseError msg) = ''Parse error: '' @ msg"
| "dax_error_display (EvaluationError msg) = ''Evaluation error: '' @ msg"
| "dax_error_display (IoError err) = ''IO error: '' @ err"

definition dax_error_from_io :: "io_error \<Rightarrow> DaxError" where
  "dax_error_from_io err = IoError err"

declare dax_error_from_io_def [dax_eval]

end
