(* ===== verification/Dax_Csv.thy ===== *)
theory Dax_Csv
  imports Dax_Table Dax_Parse_F64 Dax_Error
begin

text \<open>
  CSV ingestion, \<open>src/src/io.rs\<close>. \<open>parse_value\<close> types one cell;
  \<open>read_csv\<close> reads the file line by line (\<open>BufRead::lines\<close>), takes the
  fields (\<open>str::split(',')\<close>) of the first line as the headers and pushes every
  later line's \<open>j\<close>-th field, typed, onto column \<open>j\<close> when there is such a
  column; at the end the columns are added to a new table in header order. The
  file system is a map from paths to contents (\<open>File::open\<close> fails on a
  missing path); the loop itself is modelled on the sequence of line results the
  reader yields, each either a line or an I/O error that \<open>line?\<close> returns.
\<close>

section \<open>Typing a cell\<close>

definition parse_value :: "string \<Rightarrow> Value" where
  "parse_value value =
     (case f64_from_str value of
        Some num \<Rightarrow> Number num
      | None \<Rightarrow>
          if eq_ignore_ascii_case value ''true'' then Boolean True
          else if eq_ignore_ascii_case value ''false'' then Boolean False
          else if value = [] then Null
          else Text value)"

section \<open>Lines and fields\<close>

text \<open>\<open>str::split\<close> on a character: the pieces between the separators (one
  empty piece for the empty string).\<close>

fun str_split :: "char \<Rightarrow> string \<Rightarrow> string list" where
  "str_split d [] = [[]]"
| "str_split d (c # cs) =
     (if c = d then [] # str_split d cs
      else (let r = str_split d cs in (c # hd r) # tl r))"

text \<open>
  \<open>BufRead::lines\<close>: the pieces between newlines; a line that ended in
  \<open>\n\<close> also loses a \<open>\r\<close> before it; an empty piece after the last newline
  is no line.
\<close>

definition strip_cr :: "string \<Rightarrow> string" where
  "strip_cr l = (if l \<noteq> [] \<and> last l = CHR 0x0D then butlast l else l)"

definition buf_lines :: "string \<Rightarrow> string list" where
  "buf_lines content =
     (let ls = str_split (CHR 0x0A) content in
      map strip_cr (butlast ls) @ (if last ls = [] then [] else [last ls]))"

section \<open>The reading loop\<close>

record csv_state =
  csv_headers :: "string list"
  csv_columns :: "Value list list"

text \<open>\<open>for (j, value) in values.iter().enumerate() { if j < columns.len()
  { columns[j].push(parse_value(value)) } }\<close>\<close>

definition push_field :: "Value list list \<Rightarrow> nat \<times> string \<Rightarrow> Value list list" where
  "push_field cols jv =
     (let (j, value) = jv in
      if j < length cols then cols[j := cols ! j @ [parse_value value]] else cols)"

definition push_fields :: "Value list list \<Rightarrow> string list \<Rightarrow> Value list list" where
  "push_fields cols values = foldl push_field cols (enumerate 0 values)"

definition csv_line_step :: "nat \<Rightarrow> string \<Rightarrow> csv_state \<Rightarrow> csv_state" where
  "csv_line_step i line st =
     (let values = str_split CHR '','' line in
      if i = 0 then st\<lparr>csv_headers := values, csv_columns := replicate (length values) []\<rparr>
      else st\<lparr>csv_columns := push_fields (csv_columns st) values\<rparr>)"

fun read_csv_loop :: "nat \<Rightarrow> (io_error + string) list \<Rightarrow> csv_state \<Rightarrow> DaxError + csv_state" where
  "read_csv_loop i [] st = Inr st"
| "read_csv_loop i (Inl err # _) st = Inl (dax_error_from_io err)"
| "read_csv_loop i (Inr line # lines) st = read_csv_loop (Suc i) lines (csv_line_step i line st)"

text \<open>\<open>for (header, column) in headers.into_iter().zip(columns) { table.add_column(header, column) }\<close>\<close>

definition table_of_columns :: "string list \<Rightarrow> Value list list \<Rightarrow> Table" where
  "table_of_columns headers cols =
     foldl (\<lambda>t hc. add_column t (fst hc) (snd hc)) table_new (zip headers cols)"

definition read_csv_lines :: "(io_error + string) list \<Rightarrow> DaxError + Table" where
  "read_csv_lines lines =
     (case read_csv_loop 0 lines \<lparr>csv_headers = [], csv_columns = []\<rparr> of
        Inl e \<Rightarrow> Inl e
      | Inr st \<Rightarrow> Inr (table_of_columns (csv_headers st) (csv_columns st)))"

definition read_csv :: "(string \<rightharpoonup> string) \<Rightarrow> string \<Rightarrow> DaxError + Table" where
  "read_csv fs path =
     (case fs path of
        None \<Rightarrow> Inl (dax_error_from_io ''No such file or directory (os error 2)'')
      | Some content \<Rightarrow> read_csv_lines (map Inr (buf_lines content)))"

lemmas csv_eval [dax_eval] =
  parse_value_def strip_cr_def buf_lines_def push_field_def push_fields_def csv_line_step_def
  table_of_columns_def read_csv_lines_def read_csv_def

section \<open>Reading a file\<close>

lemma length_push_field [simp]: "length (push_field cols jv) = length cols"
  by (simp add: push_field_def split: prod.splits)

lemma foldl_push_field_nth:
  "j < length cols \<Longrightarrow>
   foldl push_field cols (enumerate k vs) ! j
     = cols ! j @ (if k \<le> j \<and> j < k + length vs then [parse_value (vs ! (j - k))] else [])"
proof (induction vs arbitrary: k cols)
  case (Cons v vs)
  have l: "j < length (push_field cols (k, v))" using Cons.prems by simp
  have "push_field cols (k, v) ! j = cols ! j @ (if j = k then [parse_value v] else [])"
    using Cons.prems by (simp add: push_field_def nth_list_update)
  then show ?case using Cons.IH [OF l, of "Suc k"] Cons.prems
    by (auto simp: nth_Cons' not_less_eq_eq Suc_le_eq)
qed simp

lemma length_push_fields [simp]: "length (push_fields cols vs) = length cols"
proof -
  have "length (foldl push_field cols ps) = length cols" for ps
    by (induction ps arbitrary: cols) simp_all
  then show ?thesis by (simp add: push_fields_def)
qed

lemma push_fields_nth:
  "j < length cols \<Longrightarrow>
   push_fields cols vs ! j = cols ! j @ (if j < length vs then [parse_value (vs ! j)] else [])"
  by (simp add: push_fields_def foldl_push_field_nth)

lemma foldl_push_fields_nth:
  "j < length cols \<Longrightarrow>
   foldl push_fields cols rows ! j = cols ! j @ [parse_value (r ! j). r \<leftarrow> rows, j < length r]"
proof (induction rows arbitrary: cols)
  case (Cons r rows)
  then show ?case by (simp add: push_fields_nth)
qed simp

lemma read_csv_loop_rows:
  "0 < i \<Longrightarrow> read_csv_loop i (map Inr rows) st
     = Inr (st\<lparr>csv_columns := foldl push_fields (csv_columns st) (map (str_split CHR '','') rows)\<rparr>)"
proof (induction rows arbitrary: i st)
  case (Cons r rows)
  then show ?case by (simp add: csv_line_step_def)
qed simp

lemma length_foldl_push_fields [simp]: "length (foldl push_fields cols rs) = length cols"
  by (induction rs arbitrary: cols) simp_all

lemma read_csv_lines_ok:
  "read_csv_lines (Inr h # map Inr rows)
     = Inr (table_of_columns (str_split CHR '','' h)
              (foldl push_fields (replicate (length (str_split CHR '','' h)) [])
                 (map (str_split CHR '','') rows)))"
  by (simp add: read_csv_lines_def csv_line_step_def read_csv_loop_rows Let_def)

lemma get_column_table_of_columns:
  "get_column (table_of_columns hs cs) c = map_of (rev (zip hs cs)) c"
  using columns_foldl_add_column [of fst snd table_new "zip hs cs"]
  by (simp add: table_of_columns_def get_column_def table_new_def)

text \<open>A later pair with the same key wins: \<open>map_of\<close> of the reversed list finds the last one.\<close>

lemma map_of_rev_zip_last:
  assumes "length hs = length cs" "j < length hs"
    and "\<forall>k. j < k \<and> k < length hs \<longrightarrow> hs ! k \<noteq> hs ! j"
  shows "map_of (rev (zip hs cs)) (hs ! j) = Some (cs ! j)"
proof -
  let ?x = "hs ! j" and ?d = "zip (drop (Suc j) hs) (drop (Suc j) cs)"
  have z: "zip hs cs = zip (take j hs) (take j cs) @ (?x, cs ! j) # ?d"
    using assms(1,2) id_take_nth_drop [of j hs] id_take_nth_drop [of j cs]
    by (metis Cons_nth_drop_Suc length_take zip_Cons_Cons zip_append append_take_drop_id)
  have "?x \<notin> set (drop (Suc j) hs)"
    using assms(3) by (auto simp: in_set_conv_nth)
  then have "map_of (rev ?d) ?x = None"
    by (auto simp: map_of_eq_None_iff dest: set_zip_leftD)
  then show ?thesis by (simp add: z map_of_append map_add_def)
qed

lemma distinct_last_index:
  "distinct hs \<Longrightarrow> j < length hs \<Longrightarrow> \<forall>k. j < k \<and> k < length hs \<longrightarrow> hs ! k \<noteq> hs ! j"
  by (simp add: nth_eq_iff_index_eq)

lemma csv_column_last:
  assumes "j < length hs" and "\<forall>k. j < k \<and> k < length hs \<longrightarrow> hs ! k \<noteq> hs ! j"
  shows "get_column (table_of_columns hs (foldl push_fields (replicate (length hs) []) rs)) (hs ! j)
         = Some [parse_value (r ! j). r \<leftarrow> rs, j < length r]"
proof -
  let ?cs = "foldl push_fields (replicate (length hs) []) rs"
  have "map_of (rev (zip hs ?cs)) (hs ! j) = Some (?cs ! j)"
    using assms by (intro map_of_rev_zip_last) simp_all
  moreover have "?cs ! j = [parse_value (r ! j). r \<leftarrow> rs, j < length r]"
    using assms(1) by (simp add: foldl_push_fields_nth)
  ultimately show ?thesis by (simp add: get_column_table_of_columns)
qed


text \<open>
  C19. The columns of the table \<open>read_csv\<close> returns are exactly the header
  fields of the first line.
\<close>

theorem read_csv_header_columns:
  "\<exists>T. read_csv_lines (map Inr (h # rows)) = Inr T \<and> dom (columns T) = set (str_split CHR '','' h)"
  using columns_foldl_add_column [of fst snd table_new]
  by (simp add: read_csv_lines_ok table_of_columns_def table_new_def zip_rev [symmetric])

text \<open>
  C21. A header line may repeat a name: the column added last under that name
  wins, so the name reads the fields at its last position in the header and the
  data of its earlier positions is lost.
\<close>

theorem read_csv_duplicate_header:
  assumes "j < length (str_split CHR '','' h)"
    and "\<forall>k. j < k \<and> k < length (str_split CHR '','' h) \<longrightarrow> str_split CHR '','' h ! k \<noteq> str_split CHR '','' h ! j"
  shows "\<exists>T. read_csv_lines (map Inr (h # rows)) = Inr T
           \<and> get_column T (str_split CHR '','' h ! j)
               = Some [parse_value (r ! j). r \<leftarrow> map (str_split CHR '','') rows, j < length r]"
  using csv_column_last [OF assms] by (simp add: read_csv_lines_ok)

lemma read_csv_loop_error:
  "read_csv_loop i (map Inr ls @ Inl e # rest) st = Inl (IoError e)"
  by (induction ls arbitrary: i st) (simp_all add: dax_error_from_io_def)

text \<open>
  C20. A line the reader fails to read ends \<open>read_csv\<close> with that I/O error
  (the \<open>line?\<close>), whatever was read before.
\<close>

theorem read_csv_first_error:
  "read_csv_lines (map Inr ls @ Inl e # rest) = Inl (IoError e)"
  by (simp add: read_csv_lines_def read_csv_loop_error)


section \<open>Witnesses\<close>


theorem read_csv_duplicate_header_witness:
  "length (str_split CHR '','' ''a,a'') = 2
   \<and> (\<exists>T. read_csv_lines (map Inr [''a,a'', ''x,y'']) = Inr T \<and> get_column T ''a'' = Some [Text ''y''])"
proof -
  have j: "1 < length (str_split CHR '','' ''a,a'')"
    and k: "\<forall>k. 1 < k \<and> k < length (str_split CHR '','' ''a,a'') \<longrightarrow> str_split CHR '','' ''a,a'' ! k \<noteq> str_split CHR '','' ''a,a'' ! 1"
    by simp_all
  obtain T where "read_csv_lines (map Inr (''a,a'' # [''x,y''])) = Inr T"
    and "get_column T (str_split CHR '','' ''a,a'' ! 1)
         = Some [parse_value (r ! 1). r \<leftarrow> map (str_split CHR '','') [''x,y''], 1 < length r]"
    using read_csv_duplicate_header [OF j k] by blast
  moreover have "parse_value ''y'' = Text ''y''"
    by (simp add: dax_eval Let_def cong: let_weak_cong)
  ultimately show ?thesis using j k by auto
qed

end
