(* ===== verification/Dax_Display.thy ===== *)
theory Dax_Display
  imports Dax_Table "HOL-Library.List_Lexorder" "HOL-Library.Char_ord"
begin

text \<open>
  \<open>impl fmt::Display for Table\<close> of \<open>src/src/table.rs\<close>. The output is a list
  of lines (one per \<open>writeln!\<close>) over Latin-1 characters and the eight
  box-drawing characters the grid uses. Widths are \<open>str::len\<close>, the UTF-8 byte
  length; padding (\<open>{:<w$}\<close>, \<open>{:>w$}\<close>) counts characters. Numbers are
  written with \<open>{:.2}\<close>: the exact binary value rounded to two decimals, ties to
  even, with the sign of a negative value (also of \<open>-0.0\<close>) kept. The
  iteration order of the \<open>HashMap\<close> is unspecified; it is the parameter
  \<open>keys\<close>, a list of the table's column names, and decides \<open>row_count\<close>
  (the length of the first column visited). \<open>usize\<close> subtraction panics on
  underflow (the debug build; the release build panics in \<open>str::repeat\<close>),
  modelled as the error \<open>Inl\<close> of the panic message. Writing into the
  formatter is assumed not to fail.
\<close>

section \<open>Output characters\<close>

datatype box_char =
    BoxDownRight | BoxDownLeft | BoxHorizontal | BoxVertical
  | BoxVerticalRight | BoxVerticalLeft | BoxUpRight | BoxUpLeft

datatype out_char = Ch char | Box box_char

definition out_str :: "string \<Rightarrow> out_char list" where
  "out_str s = map Ch s"

section \<open>Widths and formatting\<close>

text \<open>\<open>str::len\<close>: the number of UTF-8 bytes.\<close>

definition byte_len :: "string \<Rightarrow> nat" where
  "byte_len s = length (concat (map utf8_encode_char s))"

fun digits_of :: "nat \<Rightarrow> string" where
  "digits_of n =
     (if n < 10 then [''0123456789'' ! n] else digits_of (n div 10) @ [''0123456789'' ! (n mod 10)])"

text \<open>\<open>|n| \<cdot> 100\<close> rounded to the nearest integer, ties to even, computed from the
  significand and exponent of \<open>n\<close>.\<close>

definition fixed2_scaled :: "f64 \<Rightarrow> nat" where
  "fixed2_scaled n =
     (if 0 \<le> f64_qexp n then f64_mant n * 100 * 2 ^ nat (f64_qexp n)
      else rne_div (f64_mant n * 100) (2 ^ nat (- f64_qexp n)))"

text \<open>\<open>format!("{:.2}", n)\<close>.\<close>

definition fmt_fixed2 :: "f64 \<Rightarrow> string" where
  "fmt_fixed2 n =
     (if f64_is_nan n then ''NaN''
      else if f64_is_infinite n then (if f64_sign n then ''-inf'' else ''inf'')
      else
        (let k = fixed2_scaled n;
             ds = digits_of k;
             ds' = replicate (3 - length ds) CHR ''0'' @ ds
         in (if f64_sign n then ''-'' else []) @ take (length ds' - 2) ds' @ ''.''
              @ drop (length ds' - 2) ds'))"

fun value_width :: "Value \<Rightarrow> nat" where
  "value_width (Text s) = byte_len s"
| "value_width (Number n) = length (fmt_fixed2 n)"
| "value_width (Boolean b) = (if b then 4 else 5)"
| "value_width Null = 0"

text \<open>The width loop for one column: start at the name's length, take the
  maximum with every value's width.\<close>

definition column_width :: "string \<Rightarrow> Value list \<Rightarrow> nat" where
  "column_width name values = foldl (\<lambda>w v. max w (value_width v)) (byte_len name) values"

definition pad_right :: "string \<Rightarrow> nat \<Rightarrow> string" where
  "pad_right s w = s @ replicate (w - length s) CHR '' ''"

definition pad_left :: "string \<Rightarrow> nat \<Rightarrow> string" where
  "pad_left s w = replicate (w - length s) CHR '' '' @ s"

text \<open>One data cell, \<open>" {:<w$} "\<close> for text and \<open>" {:>w$} "\<close> otherwise.\<close>

fun format_cell :: "nat \<Rightarrow> Value \<Rightarrow> out_char list" where
  "format_cell w (Text s) = out_str ('' '' @ pad_right s w @ '' '')"
| "format_cell w (Number n) = out_str ('' '' @ pad_left (fmt_fixed2 n) w @ '' '')"
| "format_cell w (Boolean b) = out_str ('' '' @ pad_left (if b then ''true'' else ''false'') w @ '' '')"
| "format_cell w Null = out_str ('' '' @ pad_left [] w @ '' '')"

section \<open>The grid\<close>

text \<open>\<open>if i > 0 { write!(f, "|") }\<close> before every cell but the first.\<close>

fun vjoin :: "out_char list list \<Rightarrow> out_char list" where
  "vjoin [] = []"
| "vjoin [c] = c"
| "vjoin (c # cs) = c @ Box BoxVertical # vjoin cs"

text \<open>Checked \<open>usize\<close> subtraction.\<close>

definition usize_sub :: "nat \<Rightarrow> nat \<Rightarrow> string + nat" where
  "usize_sub a b = (if b \<le> a then Inr (a - b) else Inl ''attempt to subtract with overflow'')"

definition border :: "box_char \<Rightarrow> box_char \<Rightarrow> nat \<Rightarrow> out_char list" where
  "border l r tw = Box l # replicate tw (Box BoxHorizontal) @ [Box r]"

definition table_display :: "string list \<Rightarrow> Table \<Rightarrow> string + out_char list list" where
  "table_display keys t =
     (let names = sort keys;
          width = (\<lambda>name. case get_column t name of Some vs \<Rightarrow> column_width name vs | None \<Rightarrow> 0);
          row_count = (case keys of [] \<Rightarrow> 0 | k # _ \<Rightarrow> (case get_column t k of Some vs \<Rightarrow> length vs | None \<Rightarrow> 0))
      in case usize_sub (sum_list (map (\<lambda>name. width name + 2) names) + length names) 1 of
           Inl panic \<Rightarrow> Inl panic
         | Inr tw \<Rightarrow>
             Inr ([border BoxDownRight BoxDownLeft tw,
                   vjoin (map (\<lambda>name. out_str ('' '' @ pad_right name (width name) @ '' '')) names),
                   border BoxVerticalRight BoxVerticalLeft tw]
                  @ map (\<lambda>row. vjoin (map (\<lambda>name.
                        case get_column t name of
                          Some vs \<Rightarrow> (if row < length vs then format_cell (width name) (vs ! row) else [])
                        | None \<Rightarrow> []) names)) [0..<row_count]
                  @ [border BoxUpRight BoxUpLeft tw]))"

lemmas display_eval [dax_eval] =
  out_str_def byte_len_def fixed2_scaled_def fmt_fixed2_def column_width_def pad_right_def
  pad_left_def usize_sub_def border_def table_display_def

section \<open>Properties of the rendering\<close>

lemma length_vjoin: "length (vjoin cs) = sum_list (map length cs) + (length cs - 1)"
  by (induction cs rule: vjoin.induct) simp_all

lemma length_pad_right [simp]: "length (pad_right s w) = max (length s) w"
  by (simp add: pad_right_def)

lemma length_pad_left [simp]: "length (pad_left s w) = max (length s) w"
  by (simp add: pad_left_def)

lemma length_le_byte_len: "length s \<le> byte_len s"
proof (induction s)
  case (Cons c s)
  have "1 \<le> length (utf8_encode_char c)" by (simp add: utf8_encode_char_def Let_def)
  with Cons show ?case by (simp add: byte_len_def)
qed (simp add: byte_len_def)

lemma length_format_cell:
  assumes "value_width v \<le> w"
  shows "length (format_cell w v) = w + 2"
proof (cases v)
  case (Text s)
  have "length s \<le> w" using Text assms length_le_byte_len [of s] by simp
  with Text show ?thesis by (simp add: out_str_def)
qed (use assms in \<open>auto simp: out_str_def\<close>)

lemma value_width_le_column_width:
  "v \<in> set vs \<Longrightarrow> value_width v \<le> column_width name vs"
  "byte_len name \<le> column_width name vs"
  using foldl_max_bounds [of "byte_len name" value_width vs] by (simp_all add: column_width_def)

lemma length_vjoin_uniform:
  assumes "\<And>x. x \<in> set xs \<Longrightarrow> length (f x) = g x + 2"
  shows "length (vjoin (map f xs)) = sum_list (map (\<lambda>x. g x + 2) xs) + length xs - 1"
proof -
  have m: "map length (map f xs) = map (\<lambda>x. g x + 2) xs" using assms by simp
  show ?thesis unfolding length_vjoin m length_map by (cases xs) simp_all
qed

text \<open>
  C27. Shape of the rendering of a table whose columns all have \<open>n\<close> values: a
  frame line, the header, a separator, \<open>n\<close> data lines and a bottom line; every
  header and data line is exactly as wide as the inside of the frame (its lines
  are two characters wider, the content lines carry no outer bars).
\<close>

theorem table_display_shape:
  assumes keys: "keys \<noteq> []" and cols: "\<forall>k \<in> set keys. \<exists>vs. get_column t k = Some vs \<and> length vs = n"
  shows "\<exists>tw hdr rows. table_display keys t
           = Inr ([border BoxDownRight BoxDownLeft tw, hdr, border BoxVerticalRight BoxVerticalLeft tw]
                  @ rows @ [border BoxUpRight BoxUpLeft tw])
         \<and> length (border BoxDownRight BoxDownLeft tw) = tw + 2
         \<and> length hdr = tw \<and> length rows = n \<and> (\<forall>r \<in> set rows. length r = tw)"
proof -
  define W where "W = (\<lambda>name. case get_column t name of Some vs \<Rightarrow> column_width name vs | None \<Rightarrow> 0)"
  let ?names = "sort keys"
  let ?tw = "sum_list (map (\<lambda>name. W name + 2) ?names) + length ?names - 1"
  have names: "set ?names = set keys" "?names \<noteq> []"
    using keys by (simp, metis set_empty set_sort)
  obtain k ks where k: "keys = k # ks" using keys by (cases keys) auto
  have rc: "(case keys of [] \<Rightarrow> 0 | k # _ \<Rightarrow> (case get_column t k of Some vs \<Rightarrow> length vs | None \<Rightarrow> 0)) = n"
    using cols k by auto
  have sub: "usize_sub (sum_list (map (\<lambda>name. W name + 2) ?names) + length ?names) 1 = Inr ?tw"
    using k by (simp add: usize_sub_def)
  let ?hdr = "vjoin (map (\<lambda>name. out_str ('' '' @ pad_right name (W name) @ '' '')) ?names)"
  let ?cell = "\<lambda>row name. case get_column t name of
                 Some vs \<Rightarrow> (if row < length vs then format_cell (W name) (vs ! row) else [])
               | None \<Rightarrow> []"
  let ?rows = "map (\<lambda>row. vjoin (map (?cell row) ?names)) [0..<n]"
  have hdr: "length ?hdr = ?tw"
  proof (rule length_vjoin_uniform)
    fix name assume "name \<in> set ?names"
    then obtain vs where "get_column t name = Some vs" using cols names(1) by blast
    then have "length name \<le> W name"
      using value_width_le_column_width(2) [of name vs] length_le_byte_len [of name]
      by (simp add: W_def)
    then show "length (out_str ('' '' @ pad_right name (W name) @ '' '')) = W name + 2"
      by (simp add: out_str_def)
  qed
  have row_len: "length (vjoin (map (?cell row) ?names)) = ?tw" if row: "row < n" for row
  proof (rule length_vjoin_uniform)
    fix name assume "name \<in> set ?names"
    then obtain vs where vs: "get_column t name = Some vs" "length vs = n" using cols names(1) by blast
    then have "value_width (vs ! row) \<le> W name"
      using value_width_le_column_width(1) [of "vs ! row" vs name] row by (simp add: W_def)
    then show "length (?cell row name) = W name + 2"
      using vs row by (simp add: length_format_cell)
  qed
  have rows: "\<forall>r \<in> set ?rows. length r = ?tw" using row_len by auto
  have "table_display keys t
        = Inr ([border BoxDownRight BoxDownLeft ?tw, ?hdr, border BoxVerticalRight BoxVerticalLeft ?tw]
               @ ?rows @ [border BoxUpRight BoxUpLeft ?tw])"
    unfolding table_display_def Let_def W_def [symmetric] rc sub by simp
  moreover have "length (border BoxDownRight BoxDownLeft ?tw) = ?tw + 2" by (simp add: border_def)
  ultimately show ?thesis using hdr rows by fastforce
qed

text \<open>
  C28. Printing panics exactly on a table with no column: with no key
  \<open>column_names.len() - 1\<close> underflows; with at least one key the rendering
  always succeeds.
\<close>

theorem table_display_panics_iff:
  "table_display keys t = Inl m \<longleftrightarrow> keys = [] \<and> m = ''attempt to subtract with overflow''"
  by (cases keys) (auto simp: table_display_def usize_sub_def Let_def)

text \<open>
  C29. The number of data lines is the length of the column the \<open>HashMap\<close>
  visits first, whatever the lengths of the other columns: with columns of
  different lengths, longer columns lose their last values and shorter ones
  leave lines without cells, depending on the iteration order.
\<close>

theorem table_display_row_count:
  assumes "get_column t k = Some vs"
  shows "\<exists>ls. table_display (k # ks) t = Inr ls \<and> length ls = length vs + 4"
  using assms by (simp add: table_display_def usize_sub_def Let_def)

section \<open>Witnesses\<close>

theorem table_display_shape_witness:
  "[''A''] \<noteq> []
   \<and> list_all (\<lambda>k. \<exists>vs. get_column (add_column table_new ''A'' [Boolean True]) k = Some vs \<and> length vs = 1) [''A'']
   \<and> (\<exists>tw hdr rows. table_display [''A''] (add_column table_new ''A'' [Boolean True])
           = Inr ([border BoxDownRight BoxDownLeft tw, hdr, border BoxVerticalRight BoxVerticalLeft tw]
                  @ rows @ [border BoxUpRight BoxUpLeft tw])
         \<and> length (border BoxDownRight BoxDownLeft tw) = tw + 2
         \<and> length hdr = tw \<and> length rows = 1 \<and> list_all (\<lambda>r. length r = tw) rows)"
proof -
  have a: "[''A''] \<noteq> []"
    "\<forall>k \<in> set [''A'']. \<exists>vs. get_column (add_column table_new ''A'' [Boolean True]) k = Some vs \<and> length vs = 1"
    by (simp_all add: get_column_def add_column_def)
  show ?thesis using table_display_shape [OF a] a unfolding list_all_iff by blast
qed

theorem table_display_row_count_witness:
  "get_column (add_column (add_column table_new ''A'' [Boolean True, Boolean False]) ''B'' [Boolean True]) ''A''
     = Some [Boolean True, Boolean False]
   \<and> get_column (add_column (add_column table_new ''A'' [Boolean True, Boolean False]) ''B'' [Boolean True]) ''B''
     = Some [Boolean True]
   \<and> length (projr (table_display [''A'', ''B'']
      (add_column (add_column table_new ''A'' [Boolean True, Boolean False]) ''B'' [Boolean True]))) = 6
   \<and> length (projr (table_display [''B'', ''A'']
      (add_column (add_column table_new ''A'' [Boolean True, Boolean False]) ''B'' [Boolean True]))) = 5
   \<and> length (projr (table_display [''A'', ''B'']
      (add_column (add_column table_new ''A'' [Boolean True, Boolean False]) ''B'' [Boolean True])) ! 4)
     < length (projr (table_display [''A'', ''B'']
      (add_column (add_column table_new ''A'' [Boolean True, Boolean False]) ''B'' [Boolean True])) ! 1)"
proof -
  have a: "get_column (add_column (add_column table_new ''A'' [Boolean True, Boolean False]) ''B'' [Boolean True]) ''A''
     = Some [Boolean True, Boolean False]"
   and b: "get_column (add_column (add_column table_new ''A'' [Boolean True, Boolean False]) ''B'' [Boolean True]) ''B''
     = Some [Boolean True]"
    by (simp_all add: get_column_def add_column_def)
  have "length (projr (table_display [''A'', ''B'']
      (add_column (add_column table_new ''A'' [Boolean True, Boolean False]) ''B'' [Boolean True]))) = 6"
    using table_display_row_count [OF a, of "[''B'']"] by auto
  moreover have "length (projr (table_display [''B'', ''A'']
      (add_column (add_column table_new ''A'' [Boolean True, Boolean False]) ''B'' [Boolean True]))) = 5"
    using table_display_row_count [OF b, of "[''A'']"] by auto
  moreover have "length (projr (table_display [''A'', ''B'']
      (add_column (add_column table_new ''A'' [Boolean True, Boolean False]) ''B'' [Boolean True])) ! 4)
     < length (projr (table_display [''A'', ''B'']
      (add_column (add_column table_new ''A'' [Boolean True, Boolean False]) ''B'' [Boolean True])) ! 1)"
    by (simp add: dax_eval)
  ultimately show ?thesis using a b by simp
qed

end
