(* ===== verification/Spec2Isabelle.thy ===== *)
theory Spec2Isabelle
  imports Dax_Main Dax_Csv Dax_Display
begin

text \<open>
  \<^bold>\<open>A verification development for dax-rust.\<close>
  dax-rust evaluates a small DAX-like formula language over an in-memory column
  store. Its parts, and the theory that models each:

  \<^item> \<^bold>\<open>Dax_Prelude\<close>: Rust's \<open>Ordering\<close>, the standard library reductions
    \<open>Iterator::min_by\<close>/\<open>max_by\<close> (ties: the minimum keeps the first, the
    maximum takes the last element), and shared lemmas on lists, powers of two and
    bit lengths. The collection \<open>dax_eval\<close> holds the equations that evaluate
    the model on closed inputs.
  \<^item> \<^bold>\<open>Dax_F64\<close>: the binary64 semantics the program reaches (Rust core, not
    repository code). A \<open>f64\<close> is its bit pattern, a \<open>64 word\<close>; its value is
    the rational \<open>f64_val\<close>; \<open>==\<close> and \<open>partial_cmp\<close> compare values, NaN
    unordered; \<open>+\<close>, \<open>/\<close> and \<open>usize as f64\<close> round to nearest, ties to
    even, through one executable rounding function \<open>f64_round\<close>. Computed NaNs
    are the canonical quiet NaN (the program cannot observe a payload).
  \<^item> \<^bold>\<open>Dax_Parse_F64\<close>: \<open>str::parse::<f64>\<close> (sign, \<open>inf\<close>/\<open>infinity\<close>/
    \<open>nan\<close> in any case, decimals with exponent, correctly rounded) and
    \<open>eq_ignore_ascii_case\<close>.
  \<^item> \<^bold>\<open>Dax_Value\<close> (\<open>src/src/types.rs\<close>): the enum \<open>Value\<close>, its
    hand-written \<open>PartialEq\<close> (\<open>value_eq\<close>) and \<open>Hash\<close> (\<open>value_hash\<close>,
    the exact bytes given to the hasher), the \<open>From\<close> conversions.
  \<^item> \<^bold>\<open>Dax_Tokenizer\<close> (\<open>src/dax-macro-impl/src/lib.rs\<close>, \<open>tokenize\<close>): one
    turn of the peeking loop is \<open>lex_step\<close> (its number arm calls the model
    of \<open>str::parse::<f64>\<close>), the loop \<open>tokenize_chars\<close>
    (terminating by the length of the input); \<open>DaxToken\<close> and its \<open>Display\<close>.
  \<^item> \<^bold>\<open>Dax_Table\<close> (\<open>src/src/table.rs\<close>): \<open>Table\<close> as a record of a map from
    names to columns; \<open>new\<close>, \<open>get_column\<close>, \<open>add_column\<close> and the aggregates
    \<open>sum\<close>, \<open>average\<close>, \<open>count\<close>, \<open>distinctcount\<close> (the \<open>HashSet\<close> as
    its insertion rule), \<open>min\<close>, \<open>max\<close>, \<open>divide\<close>.
  \<^item> \<^bold>\<open>Dax_Evaluator\<close> (\<open>Table::evaluate_dax\<close>, \<open>evaluate_divide\<close>,
    \<open>DaxResult\<close>): the two nested \<open>while let\<close> loops over one token iterator are
    \<open>eval_tokens\<close> and \<open>scan_column\<close>; \<open>eval_spec\<close> is the contract.
  \<^item> \<^bold>\<open>Dax_Error\<close> (\<open>src/src/error.rs\<close>) and \<^bold>\<open>Dax_Csv\<close>
    (\<open>src/src/io.rs\<close>): \<open>DaxError\<close>; \<open>read_csv\<close> over a file system given as
    a map from paths to contents, \<open>BufRead::lines\<close>, \<open>str::split\<close>, the line
    loop with its state (headers, columns) and its \<open>line?\<close> early return, and
    \<open>parse_value\<close>.
  \<^item> \<^bold>\<open>Dax_Macro\<close> (\<open>src/dax-macro\<close>, \<open>src/dax-macro-impl\<close>): \<open>table!\<close>
    (\<open>TableData::parse\<close> over a token tree whose expressions are the literals
    \<open>Value::from\<close> takes, and the table its expansion builds), \<open>parse_dax!\<close>
    and \<open>ToTokens\<close>.
  \<^item> \<^bold>\<open>Dax_Main\<close> (\<open>src/src/main.rs\<close>): \<open>eval_dax\<close> and \<open>main\<close>.
  \<^item> \<^bold>\<open>Dax_Display\<close> (\<open>impl Display for Table\<close>): the rendered grid as a
    list of lines over Latin-1 and box-drawing characters.

  How they interact: \<open>read_csv\<close> and \<open>table!\<close> build a \<open>Table\<close> only through
  \<open>Table::new\<close> and \<open>add_column\<close>; \<open>evaluate_dax\<close> tokenizes its
  argument, finds the first function and the first column after it and calls one
  aggregate; \<open>Display\<close> reads the table. The theorem \<open>csv_sum_pipeline\<close>
  below composes ingestion and evaluation.

  \<^bold>\<open>What is proved.\<close> The evaluator refines its contract on every expression
  (first function decides; single dispatch; the three error messages; no number
  without a bracketed column; \<open>evaluate_divide\<close> can never divide columns). Every
  token the tokenizer emits is well formed, printing well-formed tokens and
  tokenizing gives them back, the loop emits at most one token per character,
  and a leading dot is skipped (\<open>.ds\<close> reads as the integer \<open>ds\<close>, contrary
  to the spec). \<open>value_eq\<close> is an equivalence; \<open>Hash\<close> agrees with it except
  on the two zeros. \<open>distinctcount\<close> counts equality classes (all NaNs one)
  when the two zeros are not both present, and one more when they are.
  \<open>average\<close> is \<open>sum\<close> over the count of numbers below \<open>2^31\<close> numbers,
  and its \<open>i32\<close> counter's wrap-around is given exactly beyond. \<open>min\<close> and
  \<open>max\<close> are extremal without NaN; with NaN, \<open>min\<close> is NaN exactly when the
  first number is and otherwise ignores NaNs, while \<open>max\<close> forgets every number
  before the last NaN. The aggregates fail exactly on a missing column.
  \<open>read_csv\<close> builds the columns the spec describes (short rows leave short
  columns, extra fields are dropped; a repeated header keeps its last
  position's data), has exactly the header columns and stops at the first read
  error. \<open>table!\<close> keeps the \<open>add_column\<close> contract and its parser
  round-trips; \<open>eval_dax\<close> only yields numbers or errors. The grid of a
  rectangular table has its exact shape, printing panics exactly on a table
  without columns, and the number of data lines is the length of the column the
  hash order visits first.

  \<^bold>\<open>Modelling choices.\<close> Characters are Isabelle's \<open>char\<close>, read as the code
  points U+0000..U+00FF, so \<open>is_alphabetic\<close> and UTF-8 lengths are exact on that
  block and no other text is modelled. Strings are \<open>char list\<close>, maps are
  \<open>'k \<rightharpoonup> 'v\<close>, \<open>usize\<close> arithmetic is \<open>nat\<close> with the one subtraction
  that can underflow checked. The counter of \<open>average\<close>, an \<open>i32\<close> by Rust's
  default, is a \<open>32 word\<close> that wraps (the release profile; a debug build
  panics at the same point, which no theorem about smaller columns depends on). The \<open>HashSet\<close> is modelled by its insertion rule
  (same hash input and \<open>==\<close>), assuming no collision of the 64-bit hashes of
  different byte streams; the \<open>HashMap\<close>'s iteration order, where output depends
  on it, is a parameter. The \<open>Display\<close> of \<open>f64\<close> (shortest round-trip digits,
  used by \<open>DaxToken\<close>'s \<open>Display\<close> and \<open>evaluate_divide\<close>) and its \<open>Debug\<close>
  form (used by \<open>ToTokens\<close>) are parameters. The \<open>{:.2}\<close> formatting is the
  exact value rounded to two decimals, ties to even. All loops are structural
  recursion or \<open>function\<close>s with a length measure; nothing needs fuel.

  \<^bold>\<open>Not modelled.\<close> File opening and reading beyond a path-to-contents map and a
  sequence of per-line results; formatter write errors (writing to a \<open>String\<close>
  cannot fail); \<open>println!\<close> and the \<open>Debug\<close> derivations; the module
  declarations of \<open>src/src/lib.rs\<close>; the second, identical copy of
  \<open>TableData::parse\<close> in \<open>dax-macro-impl\<close>; syn's parsing of general Rust
  expressions (the macro input is restricted to the literals \<open>Value::from\<close>
  accepts).
\<close>

theorem value_hash_consistent_witness:
  "value_eq (Number f64_zero) (Number f64_neg_zero)
   \<and> value_hash (Number f64_zero) \<noteq> value_hash (Number f64_neg_zero)
   \<and> {Number f64_zero, Number f64_neg_zero} = {Number f64_zero, Number f64_neg_zero}"
proof -
  have h: "value_eq (Number f64_zero) (Number f64_neg_zero)"
    and d: "value_hash (Number f64_zero) \<noteq> value_hash (Number f64_neg_zero)"
    by (simp_all add: dax_eval f64_eq_iff_bits f64_is_zero_iff)
  show ?thesis using value_hash_consistent [OF h d] h d by simp
qed

text \<open>
  C30. Ingestion and evaluation compose: reading a CSV file whose header fields are
  distinct and evaluating \<open>SUM([name])\<close> for one of its headers gives the
  \<open>f64\<close> sum, in file order, of the fields of that column that parse as numbers.
\<close>

theorem csv_sum_pipeline:
  assumes "distinct (str_split CHR '','' h)" and "j < length (str_split CHR '','' h)"
    and "CHR '']'' \<notin> set (str_split CHR '','' h ! j)"
  shows "\<exists>T. read_csv_lines (map Inr (h # rows)) = Inr T
           \<and> evaluate_dax T (''SUM(['' @ str_split CHR '','' h ! j @ ''])'')
               = RNumber (foldl sum_step f64_zero
                   [parse_value (r ! j). r \<leftarrow> map (str_split CHR '','') rows, j < length r])"
proof -
  let ?c = "str_split CHR '','' h ! j"
  let ?T = "table_of_columns (str_split CHR '','' h)
              (foldl push_fields (replicate (length (str_split CHR '','' h)) []) (map (str_split CHR '','') rows))"
  have f: "''SUM'' \<in> set supported_functions" by (simp add: supported_functions_def)
  have "evaluate_dax ?T (''SUM'' @ ''(['' @ ?c @ '']'' @ '')'') = run_aggregate ?T ''SUM'' ?c"
    using tokenize_call [OF _ _ _ assms(3), of "''SUM''" "'')''"] supported_function_name [OF f] f
    by (simp add: evaluate_dax_def)
  moreover have "get_column ?T ?c
      = Some [parse_value (r ! j). r \<leftarrow> map (str_split CHR '','') rows, j < length r]"
    using csv_column_last [OF assms(2) distinct_last_index [OF assms(1,2)]] .
  ultimately show ?thesis
    by (simp add: read_csv_lines_ok run_aggregate_def aggregate_result_def table_sum_def)
qed

theorem csv_sum_pipeline_witness:
  "distinct (str_split CHR '','' ''Sales,Product'') \<and> 0 < length (str_split CHR '','' ''Sales,Product'')
   \<and> CHR '']'' \<notin> set (str_split CHR '','' ''Sales,Product'' ! 0)
   \<and> (\<exists>T. read_csv_lines (map Inr [''Sales,Product'', ''100,Apple'', ''150,Banana'', ''200,Orange''])
            = Inr T \<and> evaluate_dax T ''SUM([Sales])'' = RNumber (f64_of_nat 450))"
proof -
  have a: "distinct (str_split CHR '','' ''Sales,Product'')" "0 < length (str_split CHR '','' ''Sales,Product'')"
    "CHR '']'' \<notin> set (str_split CHR '','' ''Sales,Product'' ! 0)"
    by simp_all
  obtain T where T: "read_csv_lines (map Inr (''Sales,Product'' # [''100,Apple'', ''150,Banana'', ''200,Orange''])) = Inr T"
    and e: "evaluate_dax T (''SUM(['' @ str_split CHR '','' ''Sales,Product'' ! 0 @ ''])'')
            = RNumber (foldl sum_step f64_zero
                [parse_value (r ! 0). r \<leftarrow> map (str_split CHR '','') [''100,Apple'', ''150,Banana'', ''200,Orange''], 0 < length r])"
    using csv_sum_pipeline [OF a] by blast
  have "foldl sum_step f64_zero
          [parse_value (r ! 0). r \<leftarrow> map (str_split CHR '','') [''100,Apple'', ''150,Banana'', ''200,Orange''], 0 < length r]
        = f64_of_nat 450"
    by (simp add: dax_eval Let_def cong: let_weak_cong)
  then show ?thesis using a T e by auto
qed

end
